theory Spec2Isabelle
  imports Complex_Main
begin

section \<open>JavaScript strings and numbers\<close>

text \<open>
  A \<open>string\<close> stands for a JavaScript string all of whose UTF-16 code units are below
  \<open>0x100\<close>; each \<open>char\<close> is one code unit. A JavaScript number is a double: \<open>Num x\<close> for
  the finite double of value \<open>x\<close>, \<open>NaN\<close>, or \<open>Infinity\<close>. Negative numbers do not occur
  in the scraper.
\<close>

datatype number = Num rat | NaN | Infinity

text \<open>
  The Number value for a non-negative rational (ECMAScript 6.1.6.1): the nearest double, a
  tie going to the double with the even significand, and \<open>Infinity\<close> from \<open>2 ^ 1024\<close> on.
  The rational is scaled by a power of two into the range of a 53-bit significand
  (\<open>scale_up\<close> counts the halvings, at most 971 below \<open>2 ^ 1024\<close>; \<open>scale_down\<close> counts
  the doublings, at most 1074, the exponent of the smallest subnormal), rounded to an
  integer and scaled back.
\<close>

definition round_half_even :: "rat \<Rightarrow> int" where
  "round_half_even x =
     (let f = \<lfloor>x\<rfloor>; d = x - of_int f
      in if d < 1 / 2 then f
         else if 1 / 2 < d then f + 1
         else if even f then f else f + 1)"

fun scale_up :: "nat \<Rightarrow> rat \<Rightarrow> nat" where
  "scale_up 0 x = 0"
| "scale_up (Suc fuel) x = (if 2 ^ 53 \<le> x then Suc (scale_up fuel (x / 2)) else 0)"

fun scale_down :: "nat \<Rightarrow> rat \<Rightarrow> nat" where
  "scale_down 0 x = 0"
| "scale_down (Suc fuel) x = (if x < 2 ^ 52 then Suc (scale_down fuel (2 * x)) else 0)"

definition to_double :: "rat \<Rightarrow> number" where
  "to_double x =
     (if 2 ^ 1024 \<le> x then Infinity
      else
        let u = scale_up 971 x;
            d = scale_down 1074 x;
            m = round_half_even (x * 2 ^ d / 2 ^ u);
            v = of_int m * 2 ^ u / 2 ^ d
        in if 2 ^ 1024 \<le> v then Infinity else Num v)"

definition is_digit :: "char \<Rightarrow> bool" where
  \<comment> \<open>the class \<open>\d\<close>\<close>
  "is_digit c = (c \<in> set ''0123456789'')"

definition is_space :: "char \<Rightarrow> bool" where
  \<comment> \<open>the class \<open>\s\<close> and the characters removed by \<open>trim\<close>, below \<open>0x100\<close>:
      TAB, LF, VT, FF, CR, SPACE, NBSP\<close>
  "is_space c = (c \<in> set [CHR 0x09, CHR 0x0A, CHR 0x0B, CHR 0x0C, CHR 0x0D, CHR 0x20, CHR 0xA0])"

definition trim :: "string \<Rightarrow> string" where
  \<comment> \<open>\<open>String.prototype.trim\<close>\<close>
  "trim s = rev (dropWhile is_space (rev (dropWhile is_space s)))"

fun split_on :: "char \<Rightarrow> string \<Rightarrow> string list" where
  \<comment> \<open>\<open>s.split(sep)\<close> for a one-character separator; the empty string gives \<open>['']\<close>\<close>
  "split_on sep [] = [[]]"
| "split_on sep (c # cs) =
     (if c = sep then [] # split_on sep cs
      else (case split_on sep cs of
              [] \<Rightarrow> [[c]]
            | p # ps \<Rightarrow> (c # p) # ps))"

definition digit_value :: "char \<Rightarrow> nat" where
  "digit_value c = of_char c - 48"

definition digits_value :: "string \<Rightarrow> nat" where
  \<comment> \<open>the value of a run of decimal digits, most significant first\<close>
  "digits_value ds = foldl (\<lambda>acc c. 10 * acc + digit_value c) 0 ds"

definition parseFloat :: "string \<Rightarrow> number" where
  \<comment> \<open>\<open>parseFloat\<close> on text without leading white space, sign or exponent: the longest
      prefix of the form digits, optional point, digits is read and its decimal value
      becomes a double; with no digit at all the result is \<open>NaN\<close>\<close>
  "parseFloat s =
     (let ip = takeWhile is_digit s;
          rest = dropWhile is_digit s;
          fp = (case rest of
                  [] \<Rightarrow> []
                | c # r \<Rightarrow> if c = CHR ''.'' then takeWhile is_digit r else [])
      in if ip = [] \<and> fp = [] then NaN
         else to_double (of_nat (digits_value ip) + of_nat (digits_value fp) / 10 ^ length fp))"

definition parseInt10 :: "string \<Rightarrow> number" where
  \<comment> \<open>\<open>parseInt(s, 10)\<close> on text without leading white space or sign: the longest prefix
      of digits is read and its value becomes a double\<close>
  "parseInt10 s =
     (let ip = takeWhile is_digit s
      in if ip = [] then NaN else to_double (of_nat (digits_value ip)))"

section \<open>The regular expressions of the scraper\<close>

text \<open>
  The two patterns of the scraper, \<open>/(\d+\.?\d*)\s*star/\<close> and \<open>/(\d+)\s*review/\<close>, are
  sequences of greedily quantified character classes with one capture group that starts at
  the beginning of the pattern. \<open>GroupEnd\<close> marks the closing parenthesis of the group.
\<close>

datatype quantifier = One | Opt | Star | Plus

datatype item = Cls quantifier "char \<Rightarrow> bool" | GroupEnd

text \<open>
  The backtracking matcher: a greedy quantifier first tries to take one more character and
  falls back to taking none when the rest of the pattern fails. The result is the input left
  at the end of the group and the input left at the end of the match.
\<close>

fun match_items :: "item list \<Rightarrow> string \<Rightarrow> (string \<times> string) option" where
  "match_items [] s = Some (s, s)"
| "match_items (GroupEnd # is) s =
     (case match_items is s of
        None \<Rightarrow> None
      | Some (g, r) \<Rightarrow> Some (s, r))"
| "match_items (Cls One p # is) [] = None"
| "match_items (Cls One p # is) (c # cs) =
     (if p c then match_items is cs else None)"
| "match_items (Cls Plus p # is) [] = None"
| "match_items (Cls Plus p # is) (c # cs) =
     (if p c then match_items (Cls Star p # is) cs else None)"
| "match_items (Cls Opt p # is) [] = match_items is []"
| "match_items (Cls Opt p # is) (c # cs) =
     (if p c
      then (case match_items is cs of
              Some m \<Rightarrow> Some m
            | None \<Rightarrow> match_items is (c # cs))
      else match_items is (c # cs))"
| "match_items (Cls Star p # is) [] = match_items is []"
| "match_items (Cls Star p # is) (c # cs) =
     (if p c
      then (case match_items (Cls Star p # is) cs of
              Some m \<Rightarrow> Some m
            | None \<Rightarrow> match_items is (c # cs))
      else match_items is (c # cs))"

fun regex_match1 :: "item list \<Rightarrow> string \<Rightarrow> string option" where
  \<comment> \<open>\<open>s.match(re)\<close> without the global flag: the leftmost start position at which the
      pattern matches; the result is the text of group 1, \<open>None\<close> stands for \<open>null\<close>\<close>
  "regex_match1 is [] =
     (case match_items is [] of
        None \<Rightarrow> None
      | Some (g, r) \<Rightarrow> Some [])"
| "regex_match1 is (c # cs) =
     (case match_items is (c # cs) of
        Some (g, r) \<Rightarrow> Some (take (length (c # cs) - length g) (c # cs))
      | None \<Rightarrow> regex_match1 is cs)"

definition lit :: "string \<Rightarrow> item list" where
  \<comment> \<open>a literal text in a pattern\<close>
  "lit s = map (\<lambda>c. Cls One (\<lambda>x. x = c)) s"

definition rating_re :: "item list" where
  \<comment> \<open>\<open>/(\d+\.?\d*)\s*star/\<close>\<close>
  "rating_re =
     [Cls Plus is_digit, Cls Opt (\<lambda>x. x = CHR ''.''), Cls Star is_digit, GroupEnd,
      Cls Star is_space] @ lit ''star''"

definition review_re :: "item list" where
  \<comment> \<open>\<open>/(\d+)\s*review/\<close>\<close>
  "review_re = [Cls Plus is_digit, GroupEnd, Cls Star is_space] @ lit ''review''"

definition parseRating :: "string \<Rightarrow> number option" where
  \<comment> \<open>\<open>None\<close> is \<open>undefined\<close>\<close>
  "parseRating ratingText =
     (case regex_match1 rating_re ratingText of
        Some g \<Rightarrow> Some (parseFloat g)
      | None \<Rightarrow> None)"

definition parseReviewCount :: "string \<Rightarrow> number option" where
  "parseReviewCount reviewText =
     (case regex_match1 review_re reviewText of
        Some g \<Rightarrow> Some (parseInt10 g)
      | None \<Rightarrow> None)"

definition extractCityFromAddress :: "string \<Rightarrow> string" where
  "extractCityFromAddress address =
     (let parts = split_on CHR '','' address
      in if length parts \<ge> 2 then trim (parts ! (length parts - 2)) else [])"

section \<open>The record model\<close>

text \<open>
  The interfaces of the model file. An optional member \<open>f?: T\<close> is a field of type
  \<open>T option\<close>, \<open>None\<close> standing for \<open>undefined\<close>. A \<open>Date\<close> is its time value in
  milliseconds.
\<close>

record BusinessHours =
  monday :: "string option"
  tuesday :: "string option"
  wednesday :: "string option"
  thursday :: "string option"
  friday :: "string option"
  saturday :: "string option"
  sunday :: "string option"

record BusinessLocation =
  latitude :: "number option"
  longitude :: "number option"
  plusCode :: "string option"
  fullAddress :: string
  street :: "string option"
  city :: string
  state :: "string option"
  country :: string
  postalCode :: "string option"

text \<open>
  \<open>extractBusinessData\<close> works on an untyped object and stores a member \<open>fullAddress\<close>
  in \<open>contact\<close> that the interface \<open>BusinessContact\<close> does not declare; it is the field
  \<open>contactFullAddress\<close> here.
\<close>

record BusinessContact =
  phoneNumber :: "string option"
  alternativePhone :: "string option"
  website :: "string option"
  email :: "string option"
  whatsapp :: "string option"
  contactFullAddress :: "string option"

record BusinessSocialMedia =
  facebook :: "string option"
  instagram :: "string option"
  twitter :: "string option"
  linkedin :: "string option"
  youtube :: "string option"
  tiktok :: "string option"

record BusinessMetrics =
  rating :: "number option"
  reviewCount :: "number option"
  priceLevel :: "string option"
  popularTimes :: "(string \<times> string) list option"
  responseRate :: "number option"
  responseTime :: "string option"

record BusinessAttributes =
  hasWebsite :: bool
  hasOnlineOrdering :: "bool option"
  hasDelivery :: "bool option"
  hasTakeout :: "bool option"
  hasDineIn :: "bool option"
  wheelchairAccessible :: "bool option"
  hasWifi :: "bool option"
  hasParking :: "bool option"
  acceptsCreditCards :: "bool option"
  acceptsCash :: "bool option"
  hasReservations :: "bool option"
  goodForGroups :: "bool option"
  goodForKids :: "bool option"
  hasOutdoorSeating :: "bool option"
  servesVegetarian :: "bool option"
  servesVegan :: "bool option"
  servesKosher :: "bool option"

record BusinessImages =
  logoUrl :: "string option"
  coverPhotoUrl :: "string option"
  photoUrls :: "string list"
  menuUrls :: "string list option"
  streetViewUrl :: "string option"

text \<open>
  The member \<open>id\<close> is the field \<open>businessId\<close>. \<open>createEmptyBusiness\<close> returns a
  \<open>Partial<Business>\<close> without it, so it is optional in the model.
\<close>

record Business =
  businessId :: "string option"
  googleMapsId :: "string option"
  placeId :: "string option"
  businessName :: string
  businessNameEnglish :: "string option"
  businessNameHebrew :: "string option"
  description :: "string option"
  businessType :: string
  businessCategories :: "string list"
  location :: BusinessLocation
  contact :: BusinessContact
  socialMedia :: BusinessSocialMedia
  metrics :: BusinessMetrics
  attributes :: BusinessAttributes
  businessHours :: "BusinessHours option"
  isOpen24Hours :: "bool option"
  temporarilyClosed :: "bool option"
  permanentlyClosed :: "bool option"
  openingDate :: "int option"
  images :: BusinessImages
  googleMapsUrl :: string
  lastUpdated :: int
  scrapedAt :: int
  dataQualityScore :: "number option"
  dataCompleteness :: "number option"
  ownerName :: "string option"
  ownerResponse :: "string option"
  servicesOffered :: "string list option"
  paymentMethods :: "string list option"
  languages :: "string list option"
  certifications :: "string list option"
  awards :: "string list option"
  yearEstablished :: "number option"

record ScrapeResult =
  success :: bool
  business :: "Business option"
  error :: "string option"
  retryable :: "bool option"
  duration :: "int option"

definition empty_location :: BusinessLocation where
  "empty_location =
     \<lparr>latitude = None, longitude = None, plusCode = None, fullAddress = [], street = None,
      city = [], state = None, country = ''Israel'', postalCode = None\<rparr>"

definition empty_contact :: BusinessContact where
  \<comment> \<open>the object \<open>{}\<close> as a contact\<close>
  "empty_contact =
     \<lparr>phoneNumber = None, alternativePhone = None, website = None, email = None,
      whatsapp = None, contactFullAddress = None\<rparr>"

definition empty_socialMedia :: BusinessSocialMedia where
  "empty_socialMedia =
     \<lparr>facebook = None, instagram = None, twitter = None, linkedin = None, youtube = None,
      tiktok = None\<rparr>"

definition empty_metrics :: BusinessMetrics where
  "empty_metrics =
     \<lparr>rating = None, reviewCount = None, priceLevel = None, popularTimes = None,
      responseRate = None, responseTime = None\<rparr>"

definition attributes_of :: "bool \<Rightarrow> BusinessAttributes" where
  \<comment> \<open>the object \<open>{ hasWebsite: b }\<close>\<close>
  "attributes_of b =
     \<lparr>hasWebsite = b, hasOnlineOrdering = None, hasDelivery = None, hasTakeout = None,
      hasDineIn = None, wheelchairAccessible = None, hasWifi = None, hasParking = None,
      acceptsCreditCards = None, acceptsCash = None, hasReservations = None,
      goodForGroups = None, goodForKids = None, hasOutdoorSeating = None,
      servesVegetarian = None, servesVegan = None, servesKosher = None\<rparr>"

definition images_of :: "string list \<Rightarrow> BusinessImages" where
  \<comment> \<open>the object \<open>{ photoUrls: us }\<close>\<close>
  "images_of us =
     \<lparr>logoUrl = None, coverPhotoUrl = None, photoUrls = us, menuUrls = None,
      streetViewUrl = None\<rparr>"

definition createEmptyBusiness :: "int \<Rightarrow> int \<Rightarrow> Business" where
  \<comment> \<open>the arguments are the values of the two \<open>new Date()\<close>\<close>
  "createEmptyBusiness now_updated now_scraped =
     \<lparr>businessId = None, googleMapsId = None, placeId = None,
      businessName = [], businessNameEnglish = None, businessNameHebrew = None,
      description = None, businessType = [], businessCategories = [],
      location = empty_location, contact = empty_contact, socialMedia = empty_socialMedia,
      metrics = empty_metrics, attributes = attributes_of False,
      businessHours = None, isOpen24Hours = None, temporarilyClosed = None,
      permanentlyClosed = None, openingDate = None,
      images = images_of [],
      googleMapsUrl = [], lastUpdated = now_updated, scrapedAt = now_scraped,
      dataQualityScore = None, dataCompleteness = None,
      ownerName = None, ownerResponse = None, servicesOffered = None, paymentMethods = None,
      languages = None, certifications = None, awards = None, yearEstablished = None\<rparr>"

subsection \<open>The completeness score\<close>

text \<open>The values that the array \<open>fields\<close> of \<open>calculateDataCompleteness\<close> can hold.\<close>

datatype jsval = Undefined | Null | Str string | Number number | Hours BusinessHours

definition opt :: "('a \<Rightarrow> jsval) \<Rightarrow> 'a option \<Rightarrow> jsval" where
  \<comment> \<open>the value of an optional member\<close>
  "opt f v = (case v of None \<Rightarrow> Undefined | Some x \<Rightarrow> f x)"

definition completeness_fields :: "Business \<Rightarrow> jsval list" where
  "completeness_fields b =
     [Str (businessName b),
      Str (fullAddress (location b)),
      opt Str (phoneNumber (contact b)),
      opt Str (website (contact b)),
      opt Number (rating (metrics b)),
      opt Number (reviewCount (metrics b)),
      opt Hours (businessHours b),
      opt Str (logoUrl (images b)),
      opt Str (description b)]"

definition Math_round :: "rat \<Rightarrow> int" where
  \<comment> \<open>\<open>Math.round\<close>: the nearest integer, a tie going up\<close>
  "Math_round x = \<lfloor>x + 1 / 2\<rfloor>"

definition calculateDataCompleteness :: "Business \<Rightarrow> int" where
  "calculateDataCompleteness b =
     (let fields = completeness_fields b;
          filledFields =
            length (filter (\<lambda>field. field \<noteq> Undefined \<and> field \<noteq> Null \<and> field \<noteq> Str []) fields)
      in Math_round ((of_nat filledFields / of_nat (length fields)) * 100))"

section \<open>Selectors\<close>

definition sel_searchBox :: string where
  \<open>sel_searchBox = ''input#searchboxinput''\<close>

definition sel_resultsContainer :: string where
  \<open>sel_resultsContainer = ''div[role="feed"]''\<close>

definition sel_noResultsMessage :: string where
  \<open>sel_noResultsMessage = ''div.section-no-result''\<close>

definition sel_businessCard :: string where
  \<open>sel_businessCard = ''div[role="article"]''\<close>

definition sel_panel :: string where
  \<open>sel_panel = ''div[role="main"][aria-label]''\<close>

definition sel_businessName :: string where
  \<open>sel_businessName = ''h1[class*="fontHeadlineLarge"]''\<close>

definition sel_rating :: string where
  \<open>sel_rating = ''div[class*="fontBodyMedium"] span[role="img"][aria-label*="stars"]''\<close>

definition sel_reviewCount :: string where
  \<open>sel_reviewCount = ''button[aria-label*="reviews"]''\<close>

definition sel_priceLevel :: string where
  \<open>sel_priceLevel = ''span[aria-label*="Price"]''\<close>

definition sel_businessType :: string where
  \<open>sel_businessType = ''button[class*="fontBodyMedium"] span''\<close>

definition sel_phoneNumber :: string where
  \<open>sel_phoneNumber = ''button[data-item-id*="phone"] div[class*="fontBodyMedium"]''\<close>

definition sel_websiteUrl :: string where
  \<open>sel_websiteUrl = ''a[data-item-id="authority"]''\<close>

definition sel_fullAddress :: string where
  \<open>sel_fullAddress = ''button[data-item-id="address"] div[class*="fontBodyMedium"]''\<close>

definition FALLBACK_businessName :: "string list" where
  \<open>FALLBACK_businessName =
     [''h1[class*="fontHeadlineLarge"]'',
      ''h1.section-hero-header-title-title'',
      ''div[role="heading"][aria-level="1"]'',
      ''h1'']\<close>

definition FALLBACK_phoneNumber :: "string list" where
  \<open>FALLBACK_phoneNumber =
     [''button[data-item-id*="phone"] div[class*="fontBodyMedium"]'',
      ''button[aria-label*="Phone"] span'',
      ''a[href^="tel:"]'']\<close>

definition FALLBACK_website :: "string list" where
  \<open>FALLBACK_website =
     [''a[data-item-id="authority"]'',
      ''a[aria-label*="Website"]'',
      ''a[href^="http"]:not([href*="google.com"])'']\<close>

section \<open>Pages, elements and thrown values\<close>

text \<open>
  A thrown value is an \<open>Error\<close> with its message or some other value. A computation that
  may throw returns \<open>Inl\<close> of the thrown value or \<open>Inr\<close> of its result.
\<close>

datatype js_error = Error string | Thrown

definition bindE :: "js_error + 'a \<Rightarrow> ('a \<Rightarrow> js_error + 'b) \<Rightarrow> js_error + 'b" where
  \<comment> \<open>sequencing: \<open>const x = await m; f(x)\<close>\<close>
  "bindE m f = (case m of Inl e \<Rightarrow> Inl e | Inr x \<Rightarrow> f x)"

definition try_catch :: "js_error + 'a \<Rightarrow> (js_error \<Rightarrow> js_error + 'a) \<Rightarrow> js_error + 'a" where
  \<comment> \<open>\<open>try { m } catch (e) { h(e) }\<close>\<close>
  "try_catch m h = (case m of Inl e \<Rightarrow> h e | Inr x \<Rightarrow> Inr x)"

text \<open>
  An element handle answers \<open>textContent()\<close> and \<open>getAttribute(name)\<close> with a string or
  \<open>null\<close> (\<open>None\<close>), or throws. For the results container, \<open>scrollHeight k\<close> is the
  outcome of the \<open>k\<close>-th reading of \<open>el.scrollHeight\<close> (counted from 0) and \<open>scrollTo k\<close>
  the outcome of the \<open>k\<close>-th scroll to the bottom.
\<close>

record element =
  textContent :: "js_error + string option"
  getAttribute :: "string \<Rightarrow> js_error + string option"
  scrollHeight :: "nat \<Rightarrow> js_error + int"
  scrollTo :: "nat \<Rightarrow> js_error + unit"

text \<open>
  A detail page: \<open>query p sel\<close> is \<open>p.$(sel)\<close>, the first matching element, \<open>null\<close>
  (\<open>None\<close>) when nothing matches, a throw for a selector that cannot be parsed.
\<close>

record page =
  query :: "string \<Rightarrow> js_error + element option"
  url :: string

definition or_empty :: "string option \<Rightarrow> string" where
  \<comment> \<open>\<open>v || ''\<close> for a string, \<open>null\<close> or \<open>undefined\<close>\<close>
  "or_empty v = (case v of None \<Rightarrow> [] | Some s \<Rightarrow> if s = [] then [] else s)"

definition truthy :: "string option \<Rightarrow> bool" where
  \<comment> \<open>\<open>!!v\<close> for a string or \<open>undefined\<close>\<close>
  "truthy v = (case v of None \<Rightarrow> False | Some s \<Rightarrow> s \<noteq> [])"

section \<open>Field extraction\<close>

definition extractText :: "page \<Rightarrow> string \<Rightarrow> js_error + string" where
  "extractText p selector =
     try_catch
       (bindE (query p selector) (\<lambda>element.
          case element of
            None \<Rightarrow> Inr []
          | Some el \<Rightarrow>
              bindE (textContent el) (\<lambda>text. Inr (or_empty (map_option trim text)))))
       (\<lambda>e. Inr [])"

definition extractHref :: "page \<Rightarrow> string \<Rightarrow> js_error + string" where
  "extractHref p selector =
     try_catch
       (bindE (query p selector) (\<lambda>element.
          case element of
            None \<Rightarrow> Inr []
          | Some el \<Rightarrow>
              bindE (getAttribute el ''href'') (\<lambda>href. Inr (or_empty href))))
       (\<lambda>e. Inr [])"

definition extractAriaLabel :: "page \<Rightarrow> string \<Rightarrow> js_error + string" where
  "extractAriaLabel p selector =
     try_catch
       (bindE (query p selector) (\<lambda>element.
          case element of
            None \<Rightarrow> Inr []
          | Some el \<Rightarrow>
              bindE (getAttribute el ''aria-label'') (\<lambda>label. Inr (or_empty label))))
       (\<lambda>e. Inr [])"

definition extractBusinessHours :: "page \<Rightarrow> js_error + BusinessHours option" where
  "extractBusinessHours p = Inr None"

definition extractImageUrls :: "page \<Rightarrow> js_error + string list" where
  "extractImageUrls p = Inr []"

section \<open>The assembler\<close>

text \<open>
  The values that one call of \<open>extractBusinessData\<close> takes from outside the page: the result
  of \<open>uuidv4()\<close> and of the four \<open>new Date()\<close>, in the order of the calls.
\<close>

record Stamps =
  uuid :: string
  date_empty_updated :: int
  date_empty_scraped :: int
  date_scraped :: int
  date_updated :: int

definition extractBusinessData :: "Stamps \<Rightarrow> page \<Rightarrow> js_error + Business" where
  "extractBusinessData st p =
     (let b0 = (createEmptyBusiness (date_empty_updated st) (date_empty_scraped st))
                 \<lparr>businessId := Some (uuid st), scrapedAt := date_scraped st\<rparr>
      in
      bindE (extractText p sel_businessName) (\<lambda>name.
      let b1 = b0\<lparr>businessName := name, googleMapsUrl := url p\<rparr> in
      bindE (extractText p sel_phoneNumber) (\<lambda>phone.
      bindE (extractHref p sel_websiteUrl) (\<lambda>web.
      bindE (extractText p sel_fullAddress) (\<lambda>addr.
      let c = empty_contact\<lparr>phoneNumber := Some phone, website := Some web,
                             contactFullAddress := Some addr\<rparr>;
          b2 = b1\<lparr>contact := c\<rparr>;
          b3 = b2\<lparr>attributes := attributes_of (truthy (website (contact b2)))\<rparr>;
          address = or_empty (contactFullAddress (contact b3));
          b4 = b3\<lparr>location :=
                    \<lparr>latitude = None, longitude = None, plusCode = None,
                     fullAddress = address, street = None,
                     city = extractCityFromAddress address, state = None,
                     country = ''Israel'', postalCode = None\<rparr>\<rparr>
      in
      bindE (extractAriaLabel p sel_rating) (\<lambda>ratingText.
      bindE (extractText p sel_reviewCount) (\<lambda>reviewCountText.
      bindE (extractText p sel_priceLevel) (\<lambda>price.
      let b5 = b4\<lparr>metrics :=
                    empty_metrics\<lparr>rating := parseRating ratingText,
                                   reviewCount := parseReviewCount reviewCountText,
                                   priceLevel := Some price\<rparr>\<rparr>
      in
      bindE (extractText p sel_businessType) (\<lambda>bt.
      let b6 = b5\<lparr>businessType := (if bt = [] then ''Unknown'' else bt)\<rparr>;
          b7 = b6\<lparr>businessCategories := [businessType b6]\<rparr>
      in
      bindE (extractBusinessHours p) (\<lambda>hours.
      let b8 = b7\<lparr>businessHours := hours\<rparr> in
      bindE (extractImageUrls p) (\<lambda>urls.
      let b9 = b8\<lparr>images := images_of urls\<rparr>
      in Inr (b9\<lparr>lastUpdated := date_updated st\<rparr>))))))))))))"

section \<open>The search session\<close>

text \<open>
  A result card as the session meets it: the outcome of clicking it, of waiting for the
  detail panel (\<open>waitForSelector\<close>, 10 s) and of the settling wait (1.5 s), the detail page
  shown after the click, the values the assembler takes from outside, and the value of
  \<open>Date.now()\<close> after the assembly.
\<close>

record Card =
  click :: "js_error + unit"
  panel_ready :: "js_error + unit"
  panel_settle :: "js_error + unit"
  detail :: page
  stamps :: Stamps
  finished :: int

text \<open>
  What a session meets outside the scraper, each field the outcome of one call:
  \<open>createPage\<close>, \<open>goto url\<close>, \<open>simulateHumanBehavior\<close>, \<open>page_click sel\<close>,
  \<open>press key\<close>, \<open>type_text sel text\<close>, \<open>waitForSelector sel\<close> on the results page,
  \<open>stabilize\<close> (the wait of 2 s after the first card), \<open>scroll_settle k\<close> (the wait of 2 s
  in the \<open>k\<close>-th round of scrolling), \<open>page_query sel\<close> (\<open>page.$\<close>) and \<open>page_queryAll sel\<close>
  (\<open>page.$$\<close>, the cards in DOM order) on the results page, \<open>humanDelay i\<close> (the delay
  before the card of index \<open>i\<close>) and \<open>close\<close>. Logging is taken not to throw.
\<close>

record World =
  createPage :: "js_error + unit"
  goto :: "string \<Rightarrow> js_error + unit"
  simulateHumanBehavior :: "js_error + unit"
  page_click :: "string \<Rightarrow> js_error + unit"
  press :: "string \<Rightarrow> js_error + unit"
  type_text :: "string \<Rightarrow> string \<Rightarrow> js_error + unit"
  waitForSelector :: "string \<Rightarrow> js_error + unit"
  stabilize :: "js_error + unit"
  scroll_settle :: "nat \<Rightarrow> js_error + unit"
  page_query :: "string \<Rightarrow> js_error + element option"
  page_queryAll :: "string \<Rightarrow> js_error + Card list"
  humanDelay :: "nat \<Rightarrow> js_error + unit"
  close :: "js_error + unit"

definition performSearch :: "World \<Rightarrow> string \<Rightarrow> string \<Rightarrow> js_error + unit" where
  "performSearch w query_text location_text =
     (let searchQuery = query_text @ '' in '' @ location_text in
      bindE (page_click w sel_searchBox) (\<lambda>_.
      bindE (press w ''Control+A'') (\<lambda>_.
      bindE (press w ''Delete'') (\<lambda>_.
      bindE (type_text w sel_searchBox searchQuery) (\<lambda>_.
      press w ''Enter'')))))"

definition maxScrollAttempts :: nat where
  "maxScrollAttempts = 10"

text \<open>
  The loop of \<open>scrollResults\<close>. The result is the final value of \<open>scrollAttempts\<close>, the
  number of rounds that were completed.
\<close>

function scroll_loop ::
  "element \<Rightarrow> (nat \<Rightarrow> js_error + unit) \<Rightarrow> int \<Rightarrow> int \<Rightarrow> nat \<Rightarrow> js_error + nat" where
  "scroll_loop el settle previousHeight currentHeight scrollAttempts =
     (if previousHeight \<noteq> currentHeight \<and> scrollAttempts < maxScrollAttempts
      then (case scrollTo el scrollAttempts of
              Inl e \<Rightarrow> Inl e
            | Inr _ \<Rightarrow>
                (case settle scrollAttempts of
                   Inl e \<Rightarrow> Inl e
                 | Inr _ \<Rightarrow>
                     (case scrollHeight el (Suc scrollAttempts) of
                        Inl e \<Rightarrow> Inl e
                      | Inr h \<Rightarrow> scroll_loop el settle currentHeight h (Suc scrollAttempts))))
      else Inr scrollAttempts)"
  by pat_completeness auto
termination
  by (relation "measure (\<lambda>(el, settle, prev, cur, n). maxScrollAttempts - n)") auto

declare scroll_loop.simps [simp del]

definition scrollResults :: "World \<Rightarrow> js_error + nat" where
  "scrollResults w =
     bindE (page_query w sel_resultsContainer) (\<lambda>resultsContainer.
       case resultsContainer of
         None \<Rightarrow> Inr 0
       | Some el \<Rightarrow>
           bindE (scrollHeight el 0) (\<lambda>currentHeight.
             scroll_loop el (scroll_settle w) 0 currentHeight 0))"

definition waitForSearchResults :: "World \<Rightarrow> js_error + unit" where
  "waitForSearchResults w =
     try_catch
       (bindE (waitForSelector w sel_businessCard) (\<lambda>_.
        bindE (stabilize w) (\<lambda>_.
        bindE (scrollResults w) (\<lambda>_. Inr ()))))
       (\<lambda>err.
        bindE (page_query w sel_noResultsMessage) (\<lambda>noResults.
          case noResults of
            Some _ \<Rightarrow> Inl (Error ''No results found for search query'')
          | None \<Rightarrow> Inl err))"

definition slice0 :: "'a list \<Rightarrow> int \<Rightarrow> 'a list" where
  \<comment> \<open>\<open>xs.slice(0, end)\<close> for an integer \<open>end\<close>: a negative \<open>end\<close> counts from the end\<close>
  "slice0 xs end_index =
     (let len = int (length xs);
          final = (if end_index < 0 then max (len + end_index) 0 else min end_index len)
      in take (nat final) xs)"

definition extractBusinessCards :: "World \<Rightarrow> int \<Rightarrow> js_error + Card list" where
  "extractBusinessCards w limit =
     bindE (page_queryAll w sel_businessCard) (\<lambda>cards. Inr (slice0 cards limit))"

definition error_message :: "js_error \<Rightarrow> string" where
  \<comment> \<open>\<open>error instanceof Error ? error.message : 'Unknown error'\<close>\<close>
  "error_message e = (case e of Error m \<Rightarrow> m | Thrown \<Rightarrow> ''Unknown error'')"

definition failure :: "js_error \<Rightarrow> ScrapeResult" where
  "failure e =
     \<lparr>success = False, business = None, error = Some (error_message e),
      retryable = Some True, duration = None\<rparr>"

text \<open>
  The calls a session makes for its result cards, in the order in which it makes them: the
  delay before the card of a given index, the click on a card, the wait for its detail
  panel, the settling wait, and the reading of the panel by the assembler. A step of the
  session returns its outcome together with the calls it made, also when it throws.
\<close>

datatype card_call = Delay nat | Click Card | WaitPanel Card | Settle Card | ReadPanel Card

definition quiet :: "js_error + 'a \<Rightarrow> (js_error + 'a) \<times> card_call list" where
  \<comment> \<open>a step that makes no call for a card\<close>
  "quiet r = (r, [])"

definition call :: "card_call \<Rightarrow> js_error + 'a \<Rightarrow> (js_error + 'a) \<times> card_call list" where
  \<comment> \<open>a call for a card, with its outcome\<close>
  "call c r = (r, [c])"

definition bindT ::
  "(js_error + 'a) \<times> card_call list \<Rightarrow> ('a \<Rightarrow> (js_error + 'b) \<times> card_call list)
     \<Rightarrow> (js_error + 'b) \<times> card_call list" where
  \<comment> \<open>sequencing; the calls of both steps are kept in order\<close>
  "bindT m f =
     (case m of
        (Inl e, t) \<Rightarrow> (Inl e, t)
      | (Inr x, t) \<Rightarrow> (case f x of (r, t') \<Rightarrow> (r, t @ t')))"

definition try_catchT ::
  "(js_error + 'a) \<times> card_call list \<Rightarrow> (js_error \<Rightarrow> (js_error + 'a) \<times> card_call list)
     \<Rightarrow> (js_error + 'a) \<times> card_call list" where
  \<comment> \<open>\<open>try { m } catch (e) { h(e) }\<close>; the calls made before the throw are kept\<close>
  "try_catchT m h =
     (case m of
        (Inl e, t) \<Rightarrow> (case h e of (r, t') \<Rightarrow> (r, t @ t'))
      | (Inr x, t) \<Rightarrow> (Inr x, t))"

definition extractBusinessDetails :: "Card \<Rightarrow> (js_error + ScrapeResult) \<times> card_call list" where
  "extractBusinessDetails bcard =
     try_catchT
       (bindT (call (Click bcard) (click bcard)) (\<lambda>_.
        bindT (call (WaitPanel bcard) (panel_ready bcard)) (\<lambda>_.
        bindT (call (Settle bcard) (panel_settle bcard)) (\<lambda>_.
        bindT (call (ReadPanel bcard) (extractBusinessData (stamps bcard) (detail bcard))) (\<lambda>b.
        quiet (Inr \<lparr>success = True, business = Some b, error = None, retryable = None,
                    duration = Some (finished bcard - scrapedAt b)\<rparr>))))))
       (\<lambda>e. quiet (Inr (failure e)))"

text \<open>
  One round of the loop over the cards, the \<open>try\<close> statement of its body: \<open>index\<close> is the
  index of the card and \<open>results\<close> the array built so far.
\<close>

definition process_card ::
  "World \<Rightarrow> nat \<Rightarrow> Card \<Rightarrow> ScrapeResult list
     \<Rightarrow> (js_error + ScrapeResult list) \<times> card_call list" where
  "process_card w index bcard results =
     try_catchT
       (bindT (if index > 0 then call (Delay index) (humanDelay w index) else quiet (Inr ())) (\<lambda>_.
        bindT (extractBusinessDetails bcard) (\<lambda>result.
        quiet (Inr (results @ [result])))))
       (\<lambda>e. quiet (Inr (results @ [failure e])))"

text \<open>The loop over the cards, from the card of index \<open>index\<close> on.\<close>

fun process_cards ::
  "World \<Rightarrow> nat \<Rightarrow> Card list \<Rightarrow> ScrapeResult list
     \<Rightarrow> (js_error + ScrapeResult list) \<times> card_call list" where
  "process_cards w index [] results = quiet (Inr results)"
| "process_cards w index (bcard # cards) results =
     bindT (process_card w index bcard results)
       (\<lambda>results'. process_cards w (Suc index) cards results')"

text \<open>
  The session. The steps before and after the loop make no call for a card; their outcomes
  are those of the session.
\<close>

definition searchBusinesses ::
  "World \<Rightarrow> string \<Rightarrow> string \<Rightarrow> int \<Rightarrow> (js_error + ScrapeResult list) \<times> card_call list" where
  "searchBusinesses w query_text location_text limit =
     try_catchT
       (bindT (quiet (createPage w)) (\<lambda>_.
        bindT (quiet (goto w ''https://maps.google.com'')) (\<lambda>_.
        bindT (quiet (simulateHumanBehavior w)) (\<lambda>_.
        bindT (quiet (performSearch w query_text location_text)) (\<lambda>_.
        bindT (quiet (waitForSearchResults w)) (\<lambda>_.
        bindT (quiet (extractBusinessCards w limit)) (\<lambda>businessCards.
        bindT (process_cards w 0 businessCards []) (\<lambda>results.
        bindT (quiet (close w)) (\<lambda>_.
        quiet (Inr results))))))))))
       (\<lambda>err. quiet (Inl err))"

section \<open>The completeness score as the specification words it\<close>

definition populated :: "string option \<Rightarrow> bool" where
  \<comment> \<open>a text field that is defined and not the empty string\<close>
  "populated v = (case v of None \<Rightarrow> False | Some s \<Rightarrow> s \<noteq> [])"

definition tracked_filled :: "Business \<Rightarrow> nat" where
  \<comment> \<open>how many of the nine tracked fields are defined, non-null and non-empty\<close>
  "tracked_filled b =
     (if businessName b \<noteq> [] then 1 else 0)
     + (if fullAddress (location b) \<noteq> [] then 1 else 0)
     + (if populated (phoneNumber (contact b)) then 1 else 0)
     + (if populated (website (contact b)) then 1 else 0)
     + (if rating (metrics b) \<noteq> None then 1 else 0)
     + (if reviewCount (metrics b) \<noteq> None then 1 else 0)
     + (if businessHours b \<noteq> None then 1 else 0)
     + (if populated (logoUrl (images b)) then 1 else 0)
     + (if populated (description b) then 1 else 0)"

definition score_table :: "int list" where
  \<comment> \<open>the nearest integer to \<open>100 k / 9\<close> for \<open>k = 0, \<dots>, 9\<close>\<close>
  "score_table = [0, 11, 22, 33, 44, 56, 67, 78, 89, 100]"

section \<open>Sample pages and records\<close>

definition text_element :: "string \<Rightarrow> element" where
  \<comment> \<open>an element with the given text and no attribute\<close>
  "text_element t =
     \<lparr>textContent = Inr (Some t), getAttribute = (\<lambda>name. Inr None),
      scrollHeight = (\<lambda>k. Inr 0), scrollTo = (\<lambda>k. Inr ())\<rparr>"

definition link_element :: "string \<Rightarrow> element" where
  \<comment> \<open>an anchor with the given \<open>href\<close>\<close>
  "link_element h =
     \<lparr>textContent = Inr (Some []),
      getAttribute = (\<lambda>name. if name = ''href'' then Inr (Some h) else Inr None),
      scrollHeight = (\<lambda>k. Inr 0), scrollTo = (\<lambda>k. Inr ())\<rparr>"

definition blank_page :: page where
  \<comment> \<open>a page on which no selector matches\<close>
  "blank_page = \<lparr>query = (\<lambda>sel. Inr None), url = ''https://maps.google.com/''\<rparr>"

definition broken_page :: page where
  \<comment> \<open>a page on which every query throws, as for a selector that cannot be parsed\<close>
  "broken_page =
     \<lparr>query = (\<lambda>sel. Inl (Error ''Unexpected token while parsing selector'')),
      url = ''https://maps.google.com/''\<rparr>"

definition website_page :: "string \<Rightarrow> page" where
  \<comment> \<open>a detail page whose only match is the website link, with the given \<open>href\<close>\<close>
  "website_page h =
     \<lparr>query = (\<lambda>sel. if sel = sel_websiteUrl then Inr (Some (link_element h)) else Inr None),
      url = ''https://maps.google.com/''\<rparr>"

definition legacy_page :: page where
  \<comment> \<open>a detail page on which the primary locator of the name misses and the last
      fallback locator \<open>h1\<close> matches\<close>
  "legacy_page =
     \<lparr>query = (\<lambda>sel. if sel = ''h1'' then Inr (Some (text_element ''Cafe Noir''))
                      else Inr None),
      url = ''https://maps.google.com/''\<rparr>"

definition sample_stamps :: Stamps where
  "sample_stamps =
     \<lparr>uuid = ''0b0e7a52-5a5e-4f0e-9d5c-2f3f6f0a1c11'', date_empty_updated = 1000,
      date_empty_scraped = 1000, date_scraped = 1001, date_updated = 1002\<rparr>"

definition full_business :: Business where
  \<comment> \<open>a record with all nine tracked fields populated\<close>
  "full_business =
     (createEmptyBusiness 0 0)
       \<lparr>businessName := ''Cafe Noir'', description := Some ''Coffee'',
        location := empty_location\<lparr>fullAddress := ''Dizengoff 123, Tel Aviv, Israel''\<rparr>,
        contact := empty_contact\<lparr>phoneNumber := Some ''03-1234567'',
                                 website := Some ''https://noir.example''\<rparr>,
        metrics := empty_metrics\<lparr>rating := Some (Num (9 / 2)), reviewCount := Some (Num 12)\<rparr>,
        businessHours :=
          Some \<lparr>monday = Some ''9-17'', tuesday = None, wednesday = None, thursday = None,
                friday = None, saturday = None, sunday = None\<rparr>,
        images := (images_of [])\<lparr>logoUrl := Some ''https://noir.example/logo.png''\<rparr>\<rparr>"

section \<open>Fallback resolution as the specification words it\<close>

fun spec_resolve :: "page \<Rightarrow> string list \<Rightarrow> element option" where
  \<comment> \<open>try the locators in declared order, the first one that matches an element wins\<close>
  "spec_resolve p [] = None"
| "spec_resolve p (sel # sels) =
     (case query p sel of
        Inr (Some el) \<Rightarrow> Some el
      | _ \<Rightarrow> spec_resolve p sels)"

section \<open>Notions used to state the properties of a session\<close>

definition reaches_cards :: "World \<Rightarrow> string \<Rightarrow> string \<Rightarrow> bool" where
  \<comment> \<open>every step of the session before the enumeration of the cards succeeds\<close>
  "reaches_cards w query_text location_text =
     (createPage w = Inr () \<and> goto w ''https://maps.google.com'' = Inr ()
      \<and> simulateHumanBehavior w = Inr ()
      \<and> performSearch w query_text location_text = Inr ()
      \<and> waitForSearchResults w = Inr ())"

definition card_throws :: "World \<Rightarrow> nat \<Rightarrow> Card \<Rightarrow> js_error option" where
  \<comment> \<open>the first value thrown while the card of index \<open>i\<close> is processed, by the delay before
      it, the click, the wait for the detail panel or the settling wait\<close>
  "card_throws w i c =
     (case (if i > 0 then humanDelay w i else Inr ()) of
        Inl e \<Rightarrow> Some e
      | Inr _ \<Rightarrow>
          (case click c of
             Inl e \<Rightarrow> Some e
           | Inr _ \<Rightarrow>
               (case panel_ready c of
                  Inl e \<Rightarrow> Some e
                | Inr _ \<Rightarrow>
                    (case panel_settle c of
                       Inl e \<Rightarrow> Some e
                     | Inr _ \<Rightarrow> None))))"

definition detail_calls :: "Card \<Rightarrow> card_call list" where
  \<comment> \<open>the calls that opening and reading a card makes, up to and including the first one
      that throws\<close>
  "detail_calls c =
     Click c #
     (case click c of
        Inl _ \<Rightarrow> []
      | Inr _ \<Rightarrow>
          WaitPanel c #
          (case panel_ready c of
             Inl _ \<Rightarrow> []
           | Inr _ \<Rightarrow>
               Settle c #
               (case panel_settle c of
                  Inl _ \<Rightarrow> []
                | Inr _ \<Rightarrow> [ReadPanel c])))"

definition card_calls :: "World \<Rightarrow> nat \<Rightarrow> Card \<Rightarrow> card_call list" where
  \<comment> \<open>the calls that attempting the card of index \<open>i\<close> makes: for every card but the
      first the delay, and, unless the delay throws, the calls on the card\<close>
  "card_calls w i c =
     (if i > 0
      then Delay i # (case humanDelay w i of Inl _ \<Rightarrow> [] | Inr _ \<Rightarrow> detail_calls c)
      else detail_calls c)"

definition clicked :: "card_call list \<Rightarrow> Card list" where
  \<comment> \<open>the cards clicked, in the order of the clicks\<close>
  "clicked t = concat (map (\<lambda>ev. case ev of Click c \<Rightarrow> [c] | _ \<Rightarrow> []) t)"

definition height_before :: "(nat \<Rightarrow> int) \<Rightarrow> nat \<Rightarrow> int" where
  \<comment> \<open>the value of \<open>previousHeight\<close> in the test before round \<open>k\<close>, when \<open>h j\<close> is the
      \<open>j\<close>-th reading of the scroll height\<close>
  "height_before h k = (if k = 0 then 0 else h (k - 1))"

section \<open>Sample sessions\<close>

definition ok_card :: "page \<Rightarrow> Card" where
  \<comment> \<open>a card whose detail panel opens and shows the given page\<close>
  "ok_card p =
     \<lparr>click = Inr (), panel_ready = Inr (), panel_settle = Inr (), detail = p,
      stamps = sample_stamps, finished = 1500\<rparr>"

definition timeout_card :: Card where
  \<comment> \<open>a card whose detail panel does not become ready within its timeout\<close>
  "timeout_card = (ok_card blank_page)\<lparr>panel_ready := Inl (Error ''Timeout 10000ms exceeded'')\<rparr>"

definition sample_world :: "Card list \<Rightarrow> World" where
  \<comment> \<open>a session in which every step succeeds, with the given result cards and no results
      container\<close>
  "sample_world cs =
     \<lparr>createPage = Inr (), goto = (\<lambda>u. Inr ()), simulateHumanBehavior = Inr (),
      page_click = (\<lambda>sel. Inr ()), press = (\<lambda>key. Inr ()), type_text = (\<lambda>sel t. Inr ()),
      waitForSelector = (\<lambda>sel. Inr ()), stabilize = Inr (), scroll_settle = (\<lambda>k. Inr ()),
      page_query = (\<lambda>sel. Inr None), page_queryAll = (\<lambda>sel. Inr cs),
      humanDelay = (\<lambda>i. Inr ()), close = Inr ()\<rparr>"

definition no_results_world :: World where
  \<comment> \<open>a session in which no card appears and the page shows the "no results" message\<close>
  "no_results_world =
     (sample_world [])
       \<lparr>waitForSelector := (\<lambda>sel. Inl (Error ''Timeout 15000ms exceeded'')),
        page_query := (\<lambda>sel. if sel = sel_noResultsMessage
                              then Inr (Some (text_element ''No results found''))
                              else Inr None)\<rparr>"

definition growing_container :: element where
  \<comment> \<open>a results container whose scroll height grows with every reading\<close>
  "growing_container =
     \<lparr>textContent = Inr (Some []), getAttribute = (\<lambda>name. Inr None),
      scrollHeight = (\<lambda>k. Inr (100 * (int k + 1))), scrollTo = (\<lambda>k. Inr ())\<rparr>"

definition endless_world :: World where
  \<comment> \<open>a session whose results container grows forever\<close>
  "endless_world =
     (sample_world [])
       \<lparr>page_query := (\<lambda>sel. if sel = sel_resultsContainer then Inr (Some growing_container)
                              else Inr None)\<rparr>"

definition numbered_card :: "nat \<Rightarrow> Card" where
  \<comment> \<open>the card at position \<open>k\<close> of a sample page; the cards differ in the time at which
      their assembly ends\<close>
  "numbered_card k = (ok_card blank_page)\<lparr>finished := 2000 + int k\<rparr>"

definition five_cards :: "Card list" where
  \<comment> \<open>five cards, the third of which never shows its detail panel\<close>
  "five_cards =
     [ok_card blank_page, ok_card blank_page, timeout_card, ok_card blank_page,
      ok_card blank_page]"

section \<open>Matches of the rating pattern as the specification words them\<close>

definition number_text :: "string \<Rightarrow> bool" where
  \<comment> \<open>a decimal number: digits, at least one, then optionally a point, then digits\<close>
  "number_text t =
     (\<exists>d1 d2. d1 \<noteq> [] \<and> list_all is_digit d1 \<and> list_all is_digit d2
        \<and> (t = d1 @ d2 \<or> t = d1 @ ''.'' @ d2))"

definition star_match :: "string \<Rightarrow> string \<Rightarrow> string \<Rightarrow> bool" where
  \<comment> \<open>after the prefix \<open>pre\<close> the text \<open>s\<close> goes on with the decimal number \<open>t\<close>, white
      space and the lower-case word \<open>star\<close>\<close>
  "star_match pre t s =
     (\<exists>ws post. s = pre @ t @ ws @ ''star'' @ post \<and> number_text t \<and> list_all is_space ws)"

definition after_number :: "string \<Rightarrow> string" where
  \<comment> \<open>what is left of a text after its longest prefix of digits, optional point and digits\<close>
  "after_number s =
     (let r0 = dropWhile is_digit s
      in case r0 of
           [] \<Rightarrow> []
         | c # r \<Rightarrow> if c = CHR ''.'' then dropWhile is_digit r else r0)"

section \<open>Field extraction never throws\<close>

lemma extractText_returns: "\<exists>s. extractText p sel = Inr s"
  by (auto simp: extractText_def try_catch_def bindE_def split: sum.splits option.splits)

lemma extractHref_returns: "\<exists>s. extractHref p sel = Inr s"
  by (auto simp: extractHref_def try_catch_def bindE_def split: sum.splits option.splits)

lemma extractAriaLabel_returns: "\<exists>s. extractAriaLabel p sel = Inr s"
  by (auto simp: extractAriaLabel_def try_catch_def bindE_def split: sum.splits option.splits)

lemma extract_miss:
  assumes "query p sel = Inr None \<or> (\<exists>e. query p sel = Inl e)"
  shows "extractText p sel = Inr []" and "extractHref p sel = Inr []"
    and "extractAriaLabel p sel = Inr []"
  using assms
  by (auto simp: extractText_def extractHref_def extractAriaLabel_def try_catch_def bindE_def)

lemma extract_null_content:
  assumes "query p sel = Inr (Some el)"
  shows "textContent el = Inr None \<or> (\<exists>e. textContent el = Inl e)
           \<Longrightarrow> extractText p sel = Inr []"
    and "getAttribute el ''href'' = Inr None \<or> (\<exists>e. getAttribute el ''href'' = Inl e)
           \<Longrightarrow> extractHref p sel = Inr []"
    and "getAttribute el ''aria-label'' = Inr None \<or> (\<exists>e. getAttribute el ''aria-label'' = Inl e)
           \<Longrightarrow> extractAriaLabel p sel = Inr []"
  using assms
  by (auto simp: extractText_def extractHref_def extractAriaLabel_def try_catch_def bindE_def
      or_empty_def)

text \<open>
  Claim C3, as the code has it. None of \<open>extractText\<close>, \<open>extractHref\<close> and
  \<open>extractAriaLabel\<close> throws, for any page and any selector. On a miss, that is when the
  query finds no element, when the query throws (a malformed selector), or when the element
  has no text or lacks the attribute, each of the three returns the empty string: the
  attribute extractors return the empty string too, not \<open>undefined\<close>.
\<close>

theorem extractors_never_throw:
  "(\<exists>s. extractText p sel = Inr s) \<and> (\<exists>s. extractHref p sel = Inr s)
   \<and> (\<exists>s. extractAriaLabel p sel = Inr s)
   \<and> (query p sel = Inr None \<or> (\<exists>e. query p sel = Inl e) \<longrightarrow>
        extractText p sel = Inr [] \<and> extractHref p sel = Inr []
        \<and> extractAriaLabel p sel = Inr [])
   \<and> (query p sel = Inr (Some el) \<and> textContent el = Inr None \<longrightarrow> extractText p sel = Inr [])
   \<and> (query p sel = Inr (Some el) \<and> getAttribute el ''href'' = Inr None \<longrightarrow>
        extractHref p sel = Inr [])
   \<and> (query p sel = Inr (Some el) \<and> getAttribute el ''aria-label'' = Inr None \<longrightarrow>
        extractAriaLabel p sel = Inr [])"
  using extractText_returns [of p sel] extractHref_returns [of p sel]
    extractAriaLabel_returns [of p sel] extract_miss [of p sel]
    extract_null_content [of p sel el]
  by blast

theorem extractors_never_throw_witness:
  "query broken_page ''a[['' = Inl (Error ''Unexpected token while parsing selector'')
   \<and> extractText broken_page ''a[['' = Inr []
   \<and> extractHref broken_page ''a[['' = Inr []
   \<and> extractAriaLabel broken_page ''a[['' = Inr []
   \<and> query blank_page sel_websiteUrl = Inr None
   \<and> extractHref blank_page sel_websiteUrl = Inr []"
  using extractors_never_throw [of broken_page "''a[[''"]
    extractors_never_throw [of blank_page sel_websiteUrl]
  by (simp add: broken_page_def blank_page_def)

text \<open>
  Claim C3 as stated fails: on a page where the locator matches no element, \<open>extractHref\<close>
  and \<open>extractAriaLabel\<close> return the empty string, a defined value, and not \<open>undefined\<close>.
\<close>

theorem attribute_miss_counterexample:
  "extractHref blank_page sel_websiteUrl = Inr []
   \<and> extractAriaLabel blank_page sel_rating = Inr []
   \<and> map_sum (\<lambda>e. e) Str (extractHref blank_page sel_websiteUrl) \<noteq> Inr Undefined
   \<and> map_sum (\<lambda>e. e) Str (extractAriaLabel blank_page sel_rating) \<noteq> Inr Undefined"
  by (simp add: extractHref_def extractAriaLabel_def blank_page_def try_catch_def bindE_def)

section \<open>The assembled record\<close>

lemma extractBusinessData_fields:
  assumes "extractText p sel_businessName = Inr name"
    and "extractText p sel_phoneNumber = Inr phone"
    and "extractHref p sel_websiteUrl = Inr web"
    and "extractText p sel_fullAddress = Inr addr"
    and "extractAriaLabel p sel_rating = Inr ratingText"
    and "extractText p sel_reviewCount = Inr reviewCountText"
    and "extractText p sel_priceLevel = Inr price"
    and "extractText p sel_businessType = Inr bt"
  shows "\<exists>b. extractBusinessData st p = Inr b
           \<and> businessName b = name
           \<and> phoneNumber (contact b) = Some phone
           \<and> website (contact b) = Some web
           \<and> hasWebsite (attributes b) = (web \<noteq> [])
           \<and> fullAddress (location b) = addr
           \<and> rating (metrics b) = parseRating ratingText
           \<and> reviewCount (metrics b) = parseReviewCount reviewCountText
           \<and> businessHours b = None
           \<and> images b = images_of []
           \<and> description b = None"
  using assms
  by (simp add: extractBusinessData_def Let_def bindE_def extractBusinessHours_def
      extractImageUrls_def createEmptyBusiness_def empty_contact_def truthy_def or_empty_def
      attributes_of_def empty_metrics_def)

lemma extractBusinessData_returns:
  "\<exists>b. extractBusinessData st p = Inr b
       \<and> Inr (businessName b) = extractText p sel_businessName
       \<and> map_sum (\<lambda>e. e) Some (extractText p sel_phoneNumber) = Inr (phoneNumber (contact b))
       \<and> map_sum (\<lambda>e. e) Some (extractHref p sel_websiteUrl) = Inr (website (contact b))
       \<and> hasWebsite (attributes b) = (\<exists>s. website (contact b) = Some s \<and> s \<noteq> [])
       \<and> businessHours b = None
       \<and> images b = images_of []
       \<and> description b = None"
proof -
  obtain name where 1: "extractText p sel_businessName = Inr name"
    using extractText_returns by blast
  obtain phone where 2: "extractText p sel_phoneNumber = Inr phone"
    using extractText_returns by blast
  obtain web where 3: "extractHref p sel_websiteUrl = Inr web"
    using extractHref_returns by blast
  obtain addr where 4: "extractText p sel_fullAddress = Inr addr"
    using extractText_returns by blast
  obtain ratingText where 5: "extractAriaLabel p sel_rating = Inr ratingText"
    using extractAriaLabel_returns by blast
  obtain reviewCountText where 6: "extractText p sel_reviewCount = Inr reviewCountText"
    using extractText_returns by blast
  obtain price where 7: "extractText p sel_priceLevel = Inr price"
    using extractText_returns by blast
  obtain bt where 8: "extractText p sel_businessType = Inr bt"
    using extractText_returns by blast
  from extractBusinessData_fields [OF 1 2 3 4 5 6 7 8, of st]
  show ?thesis
    by (auto simp: 1 2 3)
qed

lemma extractHref_value:
  assumes "query p sel = Inr (Some el)" and "getAttribute el ''href'' = Inr (Some v)"
  shows "extractHref p sel = Inr v"
  using assms by (simp add: extractHref_def try_catch_def bindE_def or_empty_def)

text \<open>
  Claim C1. The assembler returns a record for every page, and in that record
  \<open>hasWebsite\<close> holds exactly when \<open>contact.website\<close> is a non-empty string; so it does in
  the empty record. Whatever \<open>href\<close> the website link carries (empty, white space only, a
  URL), that text becomes \<open>contact.website\<close> unchanged and \<open>hasWebsite\<close> is
  \<open>href \<noteq> ''\<close>.
\<close>

theorem hasWebsite_is_website_nonempty:
  "(\<exists>b. extractBusinessData st p = Inr b
        \<and> hasWebsite (attributes b) = (\<exists>s. website (contact b) = Some s \<and> s \<noteq> []))
   \<and> hasWebsite (attributes (createEmptyBusiness t1 t2))
       = (\<exists>s. website (contact (createEmptyBusiness t1 t2)) = Some s \<and> s \<noteq> [])
   \<and> (query p sel_websiteUrl = Inr (Some el) \<and> getAttribute el ''href'' = Inr (Some v) \<longrightarrow>
        (\<exists>b. extractBusinessData st p = Inr b \<and> website (contact b) = Some v
            \<and> hasWebsite (attributes b) = (v \<noteq> [])))"
proof (intro conjI impI)
  show "\<exists>b. extractBusinessData st p = Inr b
          \<and> hasWebsite (attributes b) = (\<exists>s. website (contact b) = Some s \<and> s \<noteq> [])"
    using extractBusinessData_returns [of st p] by blast
  show "hasWebsite (attributes (createEmptyBusiness t1 t2))
          = (\<exists>s. website (contact (createEmptyBusiness t1 t2)) = Some s \<and> s \<noteq> [])"
    by (simp add: createEmptyBusiness_def attributes_of_def empty_contact_def)
next
  assume h: "query p sel_websiteUrl = Inr (Some el) \<and> getAttribute el ''href'' = Inr (Some v)"
  then have "extractHref p sel_websiteUrl = Inr v"
    by (simp add: extractHref_value)
  with extractBusinessData_returns [of st p]
  show "\<exists>b. extractBusinessData st p = Inr b \<and> website (contact b) = Some v
          \<and> hasWebsite (attributes b) = (v \<noteq> [])"
    by auto
qed

theorem hasWebsite_is_website_nonempty_witness:
  "query (website_page ''   '') sel_websiteUrl = Inr (Some (link_element ''   ''))
   \<and> getAttribute (link_element ''   '') ''href'' = Inr (Some ''   '')
   \<and> (\<exists>b. extractBusinessData sample_stamps (website_page ''   '') = Inr b
          \<and> website (contact b) = Some ''   '' \<and> hasWebsite (attributes b))"
  using hasWebsite_is_website_nonempty
    [of sample_stamps "website_page ''   ''" 0 0 "link_element ''   ''" "''   ''"]
  by (simp add: website_page_def link_element_def)

section \<open>The completeness score\<close>

lemma length_filter_Cons_if:
  "length (filter P (x # xs)) = (if P x then 1 else 0) + length (filter P xs)"
  by simp

lemma filled_Str: "(Str s \<noteq> Undefined \<and> Str s \<noteq> Null \<and> Str s \<noteq> Str []) = (s \<noteq> [])"
  by simp

lemma filled_opt_Str:
  "(opt Str v \<noteq> Undefined \<and> opt Str v \<noteq> Null \<and> opt Str v \<noteq> Str []) = populated v"
  by (simp add: opt_def populated_def split: option.splits)

lemma filled_opt_Number:
  "(opt Number v \<noteq> Undefined \<and> opt Number v \<noteq> Null \<and> opt Number v \<noteq> Str []) = (v \<noteq> None)"
  by (simp add: opt_def split: option.splits)

lemma filled_opt_Hours:
  "(opt Hours v \<noteq> Undefined \<and> opt Hours v \<noteq> Null \<and> opt Hours v \<noteq> Str []) = (v \<noteq> None)"
  by (simp add: opt_def split: option.splits)

lemma filled_count:
  "length (filter (\<lambda>field. field \<noteq> Undefined \<and> field \<noteq> Null \<and> field \<noteq> Str [])
     (completeness_fields b)) = tracked_filled b"
  unfolding completeness_fields_def tracked_filled_def
  apply (simp only: length_filter_Cons_if)
  apply (simp only: filled_Str filled_opt_Str filled_opt_Number filled_opt_Hours)
  apply (simp del: filter.simps)
  done

lemma tracked_filled_le: "tracked_filled b \<le> 9"
  unfolding tracked_filled_def by (simp split: if_splits)

lemma completeness_by_count:
  "calculateDataCompleteness b = Math_round (of_nat (tracked_filled b) / 9 * 100)"
  by (simp add: calculateDataCompleteness_def Let_def filled_count)
     (simp add: completeness_fields_def)

lemma Math_round_table:
  assumes "k \<le> 9"
  shows "Math_round (of_nat k / 9 * 100) = score_table ! k"
proof -
  have "k = 0 \<or> k = 1 \<or> k = 2 \<or> k = 3 \<or> k = 4 \<or> k = 5 \<or> k = 6 \<or> k = 7 \<or> k = 8 \<or> k = 9"
    using assms by arith
  then show ?thesis
    by (elim disjE) (simp_all add: Math_round_def score_table_def floor_eq_iff)
qed

lemma Math_round_is_round: "Math_round x = round x"
  by (simp add: Math_round_def round_def)

lemma completeness_table:
  "calculateDataCompleteness b = score_table ! tracked_filled b"
  using Math_round_table [OF tracked_filled_le, of b]
  by (simp only: completeness_by_count)

lemma tracked_filled_cong:
  assumes "businessName b = businessName b'"
    and "fullAddress (location b) = fullAddress (location b')"
    and "phoneNumber (contact b) = phoneNumber (contact b')"
    and "website (contact b) = website (contact b')"
    and "rating (metrics b) = rating (metrics b')"
    and "reviewCount (metrics b) = reviewCount (metrics b')"
    and "businessHours b = businessHours b'"
    and "logoUrl (images b) = logoUrl (images b')"
    and "description b = description b'"
  shows "tracked_filled b = tracked_filled b'"
  unfolding tracked_filled_def by (simp only: assms)

lemma tracked_filled_none:
  assumes "businessName b = []" and "fullAddress (location b) = []"
    and "\<not> populated (phoneNumber (contact b))" and "\<not> populated (website (contact b))"
    and "rating (metrics b) = None" and "reviewCount (metrics b) = None"
    and "businessHours b = None" and "\<not> populated (logoUrl (images b))"
    and "\<not> populated (description b)"
  shows "tracked_filled b = 0"
  unfolding tracked_filled_def using assms by simp

lemma tracked_filled_all:
  assumes "businessName b \<noteq> []" and "fullAddress (location b) \<noteq> []"
    and "populated (phoneNumber (contact b))" and "populated (website (contact b))"
    and "rating (metrics b) \<noteq> None" and "reviewCount (metrics b) \<noteq> None"
    and "businessHours b \<noteq> None" and "populated (logoUrl (images b))"
    and "populated (description b)"
  shows "tracked_filled b = 9"
  unfolding tracked_filled_def using assms by simp

text \<open>
  Claim C2. The score is the number of the nine tracked fields that are defined, non-null
  and non-empty, divided by 9, times 100, rounded to the nearest integer (\<open>round\<close>, and the
  ten possible values are those of \<open>score_table\<close>). It is a function of the nine fields
  alone: two records that agree on them have the same score, so a second computation on an
  unchanged record gives the same value. With all nine fields empty or undefined the score is
  0, with all nine populated it is 100.
\<close>

theorem completeness_score:
  "calculateDataCompleteness b = round (rat_of_nat (tracked_filled b) / 9 * 100)
   \<and> tracked_filled b \<le> 9
   \<and> calculateDataCompleteness b = score_table ! tracked_filled b
   \<and> (businessName b = businessName b'
        \<and> fullAddress (location b) = fullAddress (location b')
        \<and> phoneNumber (contact b) = phoneNumber (contact b')
        \<and> website (contact b) = website (contact b')
        \<and> rating (metrics b) = rating (metrics b')
        \<and> reviewCount (metrics b) = reviewCount (metrics b')
        \<and> businessHours b = businessHours b'
        \<and> logoUrl (images b) = logoUrl (images b')
        \<and> description b = description b'
       \<longrightarrow> calculateDataCompleteness b = calculateDataCompleteness b')
   \<and> (businessName b = [] \<and> fullAddress (location b) = []
        \<and> \<not> populated (phoneNumber (contact b)) \<and> \<not> populated (website (contact b))
        \<and> rating (metrics b) = None \<and> reviewCount (metrics b) = None
        \<and> businessHours b = None \<and> \<not> populated (logoUrl (images b))
        \<and> \<not> populated (description b)
       \<longrightarrow> calculateDataCompleteness b = 0)
   \<and> (businessName b \<noteq> [] \<and> fullAddress (location b) \<noteq> []
        \<and> populated (phoneNumber (contact b)) \<and> populated (website (contact b))
        \<and> rating (metrics b) \<noteq> None \<and> reviewCount (metrics b) \<noteq> None
        \<and> businessHours b \<noteq> None \<and> populated (logoUrl (images b))
        \<and> populated (description b)
       \<longrightarrow> calculateDataCompleteness b = 100)"
proof (intro conjI impI)
  show "calculateDataCompleteness b = round (rat_of_nat (tracked_filled b) / 9 * 100)"
    by (simp only: completeness_by_count Math_round_is_round)
  show "tracked_filled b \<le> 9"
    by (rule tracked_filled_le)
  show "calculateDataCompleteness b = score_table ! tracked_filled b"
    by (rule completeness_table)
next
  assume "businessName b = businessName b'
        \<and> fullAddress (location b) = fullAddress (location b')
        \<and> phoneNumber (contact b) = phoneNumber (contact b')
        \<and> website (contact b) = website (contact b')
        \<and> rating (metrics b) = rating (metrics b')
        \<and> reviewCount (metrics b) = reviewCount (metrics b')
        \<and> businessHours b = businessHours b'
        \<and> logoUrl (images b) = logoUrl (images b')
        \<and> description b = description b'"
  then have "tracked_filled b = tracked_filled b'"
    by (intro tracked_filled_cong) simp_all
  then show "calculateDataCompleteness b = calculateDataCompleteness b'"
    by (simp only: completeness_table)
next
  assume "businessName b = [] \<and> fullAddress (location b) = []
        \<and> \<not> populated (phoneNumber (contact b)) \<and> \<not> populated (website (contact b))
        \<and> rating (metrics b) = None \<and> reviewCount (metrics b) = None
        \<and> businessHours b = None \<and> \<not> populated (logoUrl (images b))
        \<and> \<not> populated (description b)"
  then have "tracked_filled b = 0"
    by (intro tracked_filled_none) simp_all
  then show "calculateDataCompleteness b = 0"
    by (simp add: completeness_table score_table_def)
next
  assume "businessName b \<noteq> [] \<and> fullAddress (location b) \<noteq> []
        \<and> populated (phoneNumber (contact b)) \<and> populated (website (contact b))
        \<and> rating (metrics b) \<noteq> None \<and> reviewCount (metrics b) \<noteq> None
        \<and> businessHours b \<noteq> None \<and> populated (logoUrl (images b))
        \<and> populated (description b)"
  then have "tracked_filled b = 9"
    by (intro tracked_filled_all) simp_all
  then show "calculateDataCompleteness b = 100"
    by (simp add: completeness_table score_table_def)
qed

theorem completeness_score_witness:
  "calculateDataCompleteness (createEmptyBusiness 0 0) = 0
   \<and> calculateDataCompleteness full_business = 100
   \<and> calculateDataCompleteness (full_business\<lparr>lastUpdated := 5, businessType := ''cafe''\<rparr>)
       = calculateDataCompleteness full_business"
  using completeness_score [of "createEmptyBusiness 0 0" "createEmptyBusiness 0 0"]
    completeness_score [of full_business "full_business\<lparr>lastUpdated := 5, businessType := ''cafe''\<rparr>"]
    completeness_score
      [of "full_business\<lparr>lastUpdated := 5, businessType := ''cafe''\<rparr>" full_business]
  by (simp add: createEmptyBusiness_def full_business_def empty_location_def empty_contact_def
      empty_metrics_def images_of_def populated_def)

section \<open>Stubbed hours and images\<close>

lemma tracked_filled_stubs:
  assumes "businessHours b = None" and "logoUrl (images b) = None" and "description b = None"
  shows "tracked_filled b \<le> 6"
  unfolding tracked_filled_def using assms by (simp add: populated_def)

lemma score_table_le_67:
  assumes "k \<le> 6"
  shows "score_table ! k \<le> 67"
proof -
  have "k = 0 \<or> k = 1 \<or> k = 2 \<or> k = 3 \<or> k = 4 \<or> k = 5 \<or> k = 6"
    using assms by arith
  then show ?thesis
    by (elim disjE) (simp_all add: score_table_def)
qed

text \<open>
  Claim C10. For every page the assembler returns a record whose \<open>businessHours\<close> is
  undefined and whose \<open>images.photoUrls\<close> is the empty list; \<open>images.logoUrl\<close> is undefined
  as well. The entries for hours and logo in the array of tracked fields are \<open>undefined\<close>, so
  neither is counted, and the score of an assembled record is at most 67.
\<close>

theorem assembled_hours_and_images_empty:
  "\<exists>b. extractBusinessData st p = Inr b
       \<and> businessHours b = None
       \<and> photoUrls (images b) = []
       \<and> logoUrl (images b) = None
       \<and> completeness_fields b ! 6 = Undefined
       \<and> completeness_fields b ! 7 = Undefined
       \<and> calculateDataCompleteness b \<le> 67"
proof -
  obtain b where b: "extractBusinessData st p = Inr b" "businessHours b = None"
    "images b = images_of []" "description b = None"
    using extractBusinessData_returns [of st p] by blast
  have logo: "logoUrl (images b) = None" and photos: "photoUrls (images b) = []"
    using b(3) by (simp_all add: images_of_def)
  have "tracked_filled b \<le> 6"
    using b(2) logo b(4) by (rule tracked_filled_stubs)
  then have "calculateDataCompleteness b \<le> 67"
    by (simp only: completeness_table score_table_le_67)
  moreover have "completeness_fields b ! 6 = Undefined" "completeness_fields b ! 7 = Undefined"
    using b(2) logo by (simp_all add: completeness_fields_def opt_def)
  ultimately show ?thesis
    using b(1,2) logo photos by blast
qed

theorem assembled_hours_and_images_empty_witness:
  "\<exists>b. extractBusinessData sample_stamps (website_page ''https://noir.example'') = Inr b
       \<and> businessHours b = None \<and> photoUrls (images b) = []
       \<and> calculateDataCompleteness b \<le> 67"
  using assembled_hours_and_images_empty
    [of sample_stamps "website_page ''https://noir.example''"]
  by blast

section \<open>Primary locators only\<close>

lemma extractText_value:
  assumes "query p sel = Inr (Some el)" and "textContent el = Inr (Some t)"
  shows "extractText p sel = Inr (trim t)"
  using assms by (simp add: extractText_def try_catch_def bindE_def or_empty_def)

text \<open>
  Claim C4, as the code has it. The first entry of each fallback list is the primary locator
  of its field, and the assembler consults the primary locator only: the business name and
  the phone number are the trimmed text of the element the primary locator matches, the
  website is its \<open>href\<close>, and when the primary locator matches nothing the field is the empty
  string, whatever the other locators of the list would match.
\<close>

theorem primary_locator_only:
  "hd FALLBACK_businessName = sel_businessName
   \<and> hd FALLBACK_phoneNumber = sel_phoneNumber
   \<and> hd FALLBACK_website = sel_websiteUrl
   \<and> (\<exists>b. extractBusinessData st p = Inr b
         \<and> (query p sel_businessName = Inr None \<longrightarrow> businessName b = [])
         \<and> (query p sel_phoneNumber = Inr None \<longrightarrow> phoneNumber (contact b) = Some [])
         \<and> (query p sel_websiteUrl = Inr None \<longrightarrow> website (contact b) = Some [])
         \<and> (query p sel_businessName = Inr (Some el) \<and> textContent el = Inr (Some t) \<longrightarrow>
              businessName b = trim t)
         \<and> (query p sel_phoneNumber = Inr (Some el) \<and> textContent el = Inr (Some t) \<longrightarrow>
              phoneNumber (contact b) = Some (trim t))
         \<and> (query p sel_websiteUrl = Inr (Some el) \<and> getAttribute el ''href'' = Inr (Some t) \<longrightarrow>
              website (contact b) = Some t))"
proof (intro conjI)
  show "hd FALLBACK_businessName = sel_businessName"
    by (simp add: FALLBACK_businessName_def sel_businessName_def)
  show "hd FALLBACK_phoneNumber = sel_phoneNumber"
    by (simp add: FALLBACK_phoneNumber_def sel_phoneNumber_def)
  show "hd FALLBACK_website = sel_websiteUrl"
    by (simp add: FALLBACK_website_def sel_websiteUrl_def)
next
  obtain b where b: "extractBusinessData st p = Inr b"
    "Inr (businessName b) = extractText p sel_businessName"
    "map_sum (\<lambda>e. e) Some (extractText p sel_phoneNumber) = Inr (phoneNumber (contact b))"
    "map_sum (\<lambda>e. e) Some (extractHref p sel_websiteUrl) = Inr (website (contact b))"
    using extractBusinessData_returns [of st p] by blast
  have 1: "query p sel_businessName = Inr None \<longrightarrow> businessName b = []"
    using b(2) extract_miss(1) [of p sel_businessName] by auto
  have 2: "query p sel_phoneNumber = Inr None \<longrightarrow> phoneNumber (contact b) = Some []"
    using b(3) extract_miss(1) [of p sel_phoneNumber] by auto
  have 3: "query p sel_websiteUrl = Inr None \<longrightarrow> website (contact b) = Some []"
    using b(4) extract_miss(2) [of p sel_websiteUrl] by auto
  have 4: "query p sel_businessName = Inr (Some el) \<and> textContent el = Inr (Some t) \<longrightarrow>
      businessName b = trim t"
    using b(2) extractText_value [of p sel_businessName el t] by auto
  have 5: "query p sel_phoneNumber = Inr (Some el) \<and> textContent el = Inr (Some t) \<longrightarrow>
      phoneNumber (contact b) = Some (trim t)"
    using b(3) extractText_value [of p sel_phoneNumber el t] by auto
  have 6: "query p sel_websiteUrl = Inr (Some el) \<and> getAttribute el ''href'' = Inr (Some t) \<longrightarrow>
      website (contact b) = Some t"
    using b(4) extractHref_value [of p sel_websiteUrl el t] by auto
  from b(1) 1 2 3 4 5 6
  show "\<exists>b. extractBusinessData st p = Inr b
         \<and> (query p sel_businessName = Inr None \<longrightarrow> businessName b = [])
         \<and> (query p sel_phoneNumber = Inr None \<longrightarrow> phoneNumber (contact b) = Some [])
         \<and> (query p sel_websiteUrl = Inr None \<longrightarrow> website (contact b) = Some [])
         \<and> (query p sel_businessName = Inr (Some el) \<and> textContent el = Inr (Some t) \<longrightarrow>
              businessName b = trim t)
         \<and> (query p sel_phoneNumber = Inr (Some el) \<and> textContent el = Inr (Some t) \<longrightarrow>
              phoneNumber (contact b) = Some (trim t))
         \<and> (query p sel_websiteUrl = Inr (Some el) \<and> getAttribute el ''href'' = Inr (Some t) \<longrightarrow>
              website (contact b) = Some t)"
    by blast
qed

theorem primary_locator_only_witness:
  "query legacy_page sel_businessName = Inr None
   \<and> query legacy_page sel_phoneNumber = Inr None
   \<and> query legacy_page sel_websiteUrl = Inr None
   \<and> (\<exists>b. extractBusinessData sample_stamps legacy_page = Inr b
          \<and> businessName b = [] \<and> phoneNumber (contact b) = Some []
          \<and> website (contact b) = Some [])"
  using primary_locator_only [of sample_stamps legacy_page]
  by (simp add: legacy_page_def sel_businessName_def sel_phoneNumber_def sel_websiteUrl_def)

text \<open>
  Claim C4 as stated fails: on a page where the primary locator of the business name misses
  and the fallback locator \<open>h1\<close> matches an element with the text \<open>Cafe Noir\<close>, resolution
  through the fallback list finds that element, and the assembled record has the empty
  business name.
\<close>

theorem fallback_counterexample:
  "spec_resolve legacy_page FALLBACK_businessName = Some (text_element ''Cafe Noir'')
   \<and> textContent (text_element ''Cafe Noir'') = Inr (Some ''Cafe Noir'')
   \<and> map_sum (\<lambda>e. e) businessName (extractBusinessData sample_stamps legacy_page) = Inr []"
proof -
  have "spec_resolve legacy_page FALLBACK_businessName = Some (text_element ''Cafe Noir'')"
    by (simp add: legacy_page_def FALLBACK_businessName_def)
  moreover have "textContent (text_element ''Cafe Noir'') = Inr (Some ''Cafe Noir'')"
    by (simp add: text_element_def)
  moreover have "query legacy_page sel_businessName = Inr None"
    by (simp add: legacy_page_def sel_businessName_def)
  then have "extractText legacy_page sel_businessName = Inr []"
    using extract_miss(1) by blast
  then have "map_sum (\<lambda>e. e) businessName (extractBusinessData sample_stamps legacy_page) = Inr []"
    using extractBusinessData_returns [of sample_stamps legacy_page] by auto
  ultimately show ?thesis by blast
qed

section \<open>Scrolling the results\<close>

lemma scroll_loop_bound:
  "scroll_loop el settle prev cur n = Inr k \<Longrightarrow> n \<le> k \<and> k \<le> max n maxScrollAttempts"
proof (induction el settle prev cur n rule: scroll_loop.induct)
  case (1 el settle prev cur n)
  show ?case
  proof (cases "prev \<noteq> cur \<and> n < maxScrollAttempts")
    case False
    with "1.prems" show ?thesis
      by (subst (asm) scroll_loop.simps) auto
  next
    case True
    with "1.prems" obtain u v h where s: "scrollTo el n = Inr u" "settle n = Inr v"
      "scrollHeight el (Suc n) = Inr h" "scroll_loop el settle cur h (Suc n) = Inr k"
      by (subst (asm) scroll_loop.simps) (auto split: sum.splits)
    from "1.IH" [OF True s(1) s(2) s(3) s(4)] True show ?thesis
      by auto
  qed
qed

lemma scroll_loop_first_fixed:
  "\<forall>k. scrollHeight el k = Inr (h k) \<Longrightarrow> \<forall>k. scrollTo el k = Inr ()
   \<Longrightarrow> \<forall>k. settle k = Inr ()
   \<Longrightarrow> prev = height_before h n \<Longrightarrow> cur = h n \<Longrightarrow> n \<le> maxScrollAttempts
   \<Longrightarrow> \<forall>j<n. height_before h j \<noteq> h j
   \<Longrightarrow> \<exists>k. scroll_loop el settle prev cur n = Inr k \<and> k \<le> maxScrollAttempts
          \<and> (k < maxScrollAttempts \<longrightarrow> height_before h k = h k)
          \<and> (\<forall>j<k. height_before h j \<noteq> h j)"
proof (induction el settle prev cur n rule: scroll_loop.induct)
  case (1 el settle prev cur n)
  show ?case
  proof (cases "prev \<noteq> cur \<and> n < maxScrollAttempts")
    case False
    then have stop: "scroll_loop el settle prev cur n = Inr n"
      by (subst scroll_loop.simps) auto
    have "n < maxScrollAttempts \<longrightarrow> height_before h n = h n"
      using False "1.prems"(4,5) by blast
    with stop "1.prems"(6,7) show ?thesis
      by blast
  next
    case True
    have step: "scroll_loop el settle prev cur n = scroll_loop el settle cur (h (Suc n)) (Suc n)"
      using True "1.prems"(1,2,3) by (subst scroll_loop.simps) simp
    have a: "\<forall>j<Suc n. height_before h j \<noteq> h j"
      using True "1.prems" by (auto simp: less_Suc_eq)
    have b: "cur = height_before h (Suc n)"
      using "1.prems" by (simp add: height_before_def)
    have c: "Suc n \<le> maxScrollAttempts"
      using True by simp
    have "scrollTo el n = Inr ()" "settle n = Inr ()" "scrollHeight el (Suc n) = Inr (h (Suc n))"
      using "1.prems"(1,2,3) by simp_all
    from "1.IH" [OF True this "1.prems"(1,2,3) b refl c a] step
    show ?thesis by simp
  qed
qed

lemma scrollResults_bounded_general:
  "(\<exists>e. scrollResults w = Inl e) \<or> (\<exists>k\<le>maxScrollAttempts. scrollResults w = Inr k)"
proof (cases "scrollResults w")
  case (Inl e)
  then show ?thesis by blast
next
  case (Inr k)
  then have "k \<le> maxScrollAttempts"
    by (auto simp: scrollResults_def bindE_def maxScrollAttempts_def
        split: sum.splits option.splits dest: scroll_loop_bound)
  with Inr show ?thesis by blast
qed

text \<open>
  Claim C9. \<open>scrollResults\<close> is a total function: its loop is defined with a termination
  proof, the measure being \<open>maxScrollAttempts - scrollAttempts\<close>. For every session it
  either throws or returns after at most 10 rounds. When nothing throws and \<open>h k\<close> is the
  \<open>k\<close>-th reading of the scroll height, the number of rounds is the first \<open>k\<close> at which the
  height is unchanged (\<open>height_before h k = h k\<close>), or 10 when there is no such \<open>k\<close> below
  10; this holds for every sequence \<open>h\<close>, also one that grows forever.
\<close>

theorem scrolling_terminates:
  "((\<exists>e. scrollResults w = Inl e) \<or> (\<exists>k\<le>10. scrollResults w = Inr k))
   \<and> (page_query w sel_resultsContainer = Inr (Some el)
        \<and> (\<forall>k. scrollHeight el k = Inr (h k)) \<and> (\<forall>k. scrollTo el k = Inr ())
        \<and> (\<forall>k. scroll_settle w k = Inr ())
       \<longrightarrow> (\<exists>k. scrollResults w = Inr k \<and> k \<le> 10
              \<and> (k < 10 \<longrightarrow> height_before h k = h k)
              \<and> (\<forall>j<k. height_before h j \<noteq> h j)))"
proof (intro conjI impI)
  show "(\<exists>e. scrollResults w = Inl e) \<or> (\<exists>k\<le>10. scrollResults w = Inr k)"
    using scrollResults_bounded_general [of w] by (simp add: maxScrollAttempts_def)
next
  assume a: "page_query w sel_resultsContainer = Inr (Some el)
        \<and> (\<forall>k. scrollHeight el k = Inr (h k)) \<and> (\<forall>k. scrollTo el k = Inr ())
        \<and> (\<forall>k. scroll_settle w k = Inr ())"
  then have eq: "scrollResults w = scroll_loop el (scroll_settle w) 0 (h 0) 0"
    by (simp add: scrollResults_def bindE_def)
  have "\<exists>k. scroll_loop el (scroll_settle w) 0 (h 0) 0 = Inr k \<and> k \<le> maxScrollAttempts
          \<and> (k < maxScrollAttempts \<longrightarrow> height_before h k = h k)
          \<and> (\<forall>j<k. height_before h j \<noteq> h j)"
    using a by (intro scroll_loop_first_fixed) (simp_all add: height_before_def)
  then show "\<exists>k. scrollResults w = Inr k \<and> k \<le> 10
              \<and> (k < 10 \<longrightarrow> height_before h k = h k)
              \<and> (\<forall>j<k. height_before h j \<noteq> h j)"
    by (simp add: eq maxScrollAttempts_def)
qed

theorem scrolling_terminates_witness:
  "page_query endless_world sel_resultsContainer = Inr (Some growing_container)
   \<and> (\<forall>k. scrollHeight growing_container k = Inr (100 * (int k + 1)))
   \<and> scrollResults endless_world = Inr 10"
proof -
  have 1: "page_query endless_world sel_resultsContainer = Inr (Some growing_container)"
    by (simp add: endless_world_def)
  have 2: "\<forall>k. scrollHeight growing_container k = Inr (100 * (int k + 1))"
    by (simp add: growing_container_def)
  have 3: "\<forall>k. scrollTo growing_container k = Inr ()"
    by (simp add: growing_container_def)
  have 4: "\<forall>k. scroll_settle endless_world k = Inr ()"
    by (simp add: endless_world_def sample_world_def)
  have 5: "height_before (\<lambda>k. 100 * (int k + 1)) k \<noteq> 100 * (int k + 1)" for k
    by (simp add: height_before_def)
  from scrolling_terminates [of endless_world growing_container "\<lambda>k. 100 * (int k + 1)"]
    1 2 3 4
  obtain k where k: "scrollResults endless_world = Inr k" "k \<le> 10"
    "k < 10 \<longrightarrow> height_before (\<lambda>k. 100 * (int k + 1)) k = 100 * (int k + 1)"
    by blast
  from k(2,3) 5 have "k = 10"
    by (cases "k < 10") auto
  with k(1) 1 2 show ?thesis by simp
qed

section \<open>The session\<close>

lemma extractBusinessDetails_throws:
  assumes "card_throws w 0 c = Some e"
  shows "extractBusinessDetails c = (Inr (failure e), detail_calls c)"
  using assms
  by (auto simp: card_throws_def extractBusinessDetails_def detail_calls_def try_catchT_def
      bindT_def call_def quiet_def split: sum.splits)

lemma extractBusinessDetails_succeeds:
  assumes "card_throws w 0 c = None"
    and "extractBusinessData (stamps c) (detail c) = Inr b"
  shows "extractBusinessDetails c
           = (Inr \<lparr>success = True, business = Some b, error = None, retryable = None,
                   duration = Some (finished c - scrapedAt b)\<rparr>, detail_calls c)"
  using assms
  by (auto simp: card_throws_def extractBusinessDetails_def detail_calls_def try_catchT_def
      bindT_def call_def quiet_def split: sum.splits)

lemma extractBusinessDetails_returns: "\<exists>r. extractBusinessDetails c = (Inr r, detail_calls c)"
proof (cases "card_throws w 0 c")
  case None
  obtain b where "extractBusinessData (stamps c) (detail c) = Inr b"
    using extractBusinessData_returns by blast
  with None show ?thesis
    using extractBusinessDetails_succeeds by blast
next
  case (Some e)
  then show ?thesis
    using extractBusinessDetails_throws by blast
qed

lemma process_card_throws:
  assumes "card_throws w i c = Some e"
  shows "process_card w i c results = (Inr (results @ [failure e]), card_calls w i c)"
proof (cases "if i > 0 then humanDelay w i else Inr ()")
  case (Inl e')
  with assms show ?thesis
    by (auto simp: card_throws_def process_card_def card_calls_def try_catchT_def bindT_def
        call_def quiet_def split: if_splits)
next
  case (Inr u)
  with assms have "card_throws w 0 c = Some e"
    by (simp add: card_throws_def split: if_splits)
  then have "extractBusinessDetails c = (Inr (failure e), detail_calls c)"
    by (rule extractBusinessDetails_throws)
  with Inr show ?thesis
    by (auto simp: process_card_def card_calls_def try_catchT_def bindT_def call_def quiet_def
        split: if_splits)
qed

lemma process_card_succeeds:
  assumes "card_throws w i c = None"
    and "extractBusinessData (stamps c) (detail c) = Inr b"
  shows "process_card w i c results
           = (Inr (results @ [\<lparr>success = True, business = Some b, error = None,
                               retryable = None,
                               duration = Some (finished c - scrapedAt b)\<rparr>]),
              card_calls w i c)"
proof -
  from assms(1) obtain u where d: "(if i > 0 then humanDelay w i else Inr ()) = Inr u"
    by (auto simp: card_throws_def split: sum.splits if_splits)
  with assms(1) have "card_throws w 0 c = None"
    by (simp add: card_throws_def split: if_splits)
  then have "extractBusinessDetails c
           = (Inr \<lparr>success = True, business = Some b, error = None, retryable = None,
                   duration = Some (finished c - scrapedAt b)\<rparr>, detail_calls c)"
    using assms(2) by (rule extractBusinessDetails_succeeds)
  with d show ?thesis
    by (auto simp: process_card_def card_calls_def try_catchT_def bindT_def call_def quiet_def
        split: if_splits)
qed

lemma process_card_appends:
  "\<exists>r. \<forall>results. process_card w i c results = (Inr (results @ [r]), card_calls w i c)"
proof (cases "card_throws w i c")
  case None
  obtain b where "extractBusinessData (stamps c) (detail c) = Inr b"
    using extractBusinessData_returns by blast
  with None show ?thesis
    using process_card_succeeds by blast
next
  case (Some e)
  then show ?thesis
    using process_card_throws by blast
qed

lemma upt_0_Suc_map: "map f [0..<Suc n] = f 0 # map (\<lambda>k. f (Suc k)) [0..<n]"
proof -
  have "[0..<Suc n] = 0 # map Suc [0..<n]"
    by (simp add: upt_conv_Cons map_Suc_upt del: upt_Suc)
  then show ?thesis
    by (simp add: comp_def del: upt_Suc)
qed

lemma process_cards_spec:
  "\<exists>rs. process_cards w i cs acc
          = (Inr (acc @ rs), concat (map (\<lambda>k. card_calls w (i + k) (cs ! k)) [0..<length cs]))
        \<and> length rs = length cs
        \<and> (\<forall>k<length cs. fst (process_card w (i + k) (cs ! k) []) = Inr [rs ! k])"
proof (induction cs arbitrary: i acc)
  case Nil
  then show ?case by (simp add: quiet_def)
next
  case (Cons c cs)
  obtain r where r: "\<forall>results. process_card w i c results
      = (Inr (results @ [r]), card_calls w i c)"
    using process_card_appends by blast
  from Cons.IH [of "Suc i" "acc @ [r]"]
  obtain rs where rs: "process_cards w (Suc i) cs (acc @ [r])
      = (Inr ((acc @ [r]) @ rs),
         concat (map (\<lambda>k. card_calls w (Suc i + k) (cs ! k)) [0..<length cs]))"
    "length rs = length cs"
    "\<forall>k<length cs. fst (process_card w (Suc i + k) (cs ! k) []) = Inr [rs ! k]"
    by blast
  have t: "concat (map (\<lambda>k. card_calls w (i + k) ((c # cs) ! k)) [0..<length (c # cs)])
      = card_calls w i c
        @ concat (map (\<lambda>k. card_calls w (Suc i + k) (cs ! k)) [0..<length cs])"
    by (simp add: upt_0_Suc_map del: upt_Suc)
  have 1: "process_cards w i (c # cs) acc
      = (Inr (acc @ (r # rs)),
         concat (map (\<lambda>k. card_calls w (i + k) ((c # cs) ! k)) [0..<length (c # cs)]))"
    unfolding t using r rs(1) by (simp add: bindT_def)
  have 2: "length (r # rs) = length (c # cs)"
    using rs(2) by simp
  have 3: "\<forall>k<length (c # cs).
      fst (process_card w (i + k) ((c # cs) ! k) []) = Inr [(r # rs) ! k]"
  proof (intro allI impI)
    fix k assume k: "k < length (c # cs)"
    show "fst (process_card w (i + k) ((c # cs) ! k) []) = Inr [(r # rs) ! k]"
    proof (cases k)
      case 0
      then show ?thesis using r by simp
    next
      case (Suc k')
      then show ?thesis using rs(3) k by simp
    qed
  qed
  from 1 2 3 show ?case by blast
qed

lemma slice0_nat: "slice0 xs (int n) = take n xs"
  by (simp add: slice0_def Let_def min_def)

lemma searchBusinesses_reaches:
  assumes "reaches_cards w q l" and "page_queryAll w sel_businessCard = Inr cards"
    and "process_cards w 0 (slice0 cards limit) [] = (Inr rs, t)"
  shows "searchBusinesses w q l limit
           = ((case close w of Inl e \<Rightarrow> Inl e | Inr _ \<Rightarrow> Inr rs), t)"
proof -
  have "extractBusinessCards w limit = Inr (slice0 cards limit)"
    using assms(2) by (simp add: extractBusinessCards_def bindE_def)
  then show ?thesis
    using assms(1,3)
    by (cases "close w")
       (simp_all add: searchBusinesses_def reaches_cards_def try_catchT_def bindT_def quiet_def)
qed

lemma session_trace:
  assumes "reaches_cards w q l" and "page_queryAll w sel_businessCard = Inr cards"
  shows "snd (searchBusinesses w q l (int n))
           = concat (map (\<lambda>i. card_calls w i (cards ! i)) [0..<min n (length cards)])"
proof -
  from process_cards_spec [of w 0 "take n cards" "[]"]
  obtain rs where rs: "process_cards w 0 (take n cards) []
      = (Inr rs, concat (map (\<lambda>k. card_calls w k (take n cards ! k))
                           [0..<length (take n cards)]))"
    by auto
  have "map (\<lambda>k. card_calls w k (take n cards ! k)) [0..<length (take n cards)]
      = map (\<lambda>i. card_calls w i (cards ! i)) [0..<min n (length cards)]"
    by (simp add: min.commute)
  with rs have "process_cards w 0 (slice0 cards (int n)) []
      = (Inr rs, concat (map (\<lambda>i. card_calls w i (cards ! i)) [0..<min n (length cards)]))"
    by (simp only: slice0_nat)
  from searchBusinesses_reaches [OF assms this] show ?thesis
    by simp
qed

lemma session_results:
  assumes "reaches_cards w q l" and "page_queryAll w sel_businessCard = Inr cards"
    and "close w = Inr ()"
  shows "\<exists>results. fst (searchBusinesses w q l (int n)) = Inr results
           \<and> length results = min n (length cards)
           \<and> (\<forall>i<length results. fst (process_card w i (cards ! i) []) = Inr [results ! i])"
proof -
  from process_cards_spec [of w 0 "take n cards" "[]"]
  obtain rs t where rs: "process_cards w 0 (take n cards) [] = (Inr rs, t)"
    "length rs = length (take n cards)"
    "\<forall>k<length (take n cards). fst (process_card w k (take n cards ! k) []) = Inr [rs ! k]"
    by auto
  have "process_cards w 0 (slice0 cards (int n)) [] = (Inr rs, t)"
    using rs(1) by (simp only: slice0_nat)
  from searchBusinesses_reaches [OF assms(1,2) this]
  have "fst (searchBusinesses w q l (int n)) = Inr rs"
    using assms(3) by simp
  moreover have "length rs = min n (length cards)"
    using rs(2) by (simp add: min.commute)
  moreover have "\<forall>i<length rs. fst (process_card w i (cards ! i) []) = Inr [rs ! i]"
    using rs(2,3) by simp
  ultimately show ?thesis by blast
qed

lemma process_card_queryAll:
  "process_card (w\<lparr>page_queryAll := f\<rparr>) i c acc = process_card w i c acc"
  by (simp add: process_card_def)

lemma process_cards_queryAll:
  "process_cards (w\<lparr>page_queryAll := f\<rparr>) i cs acc = process_cards w i cs acc"
proof (induction cs arbitrary: i acc)
  case Nil
  show ?case by simp
next
  case (Cons c cs)
  then show ?case
    by (simp add: process_card_queryAll bindT_def split: prod.splits sum.splits)
qed

lemma performSearch_queryAll:
  "performSearch (w\<lparr>page_queryAll := f\<rparr>) q l = performSearch w q l"
  by (simp add: performSearch_def Let_def)

lemma scrollResults_queryAll: "scrollResults (w\<lparr>page_queryAll := f\<rparr>) = scrollResults w"
  by (simp add: scrollResults_def cong: option.case_cong)

lemma waitForSearchResults_queryAll:
  "waitForSearchResults (w\<lparr>page_queryAll := f\<rparr>) = waitForSearchResults w"
  by (simp add: waitForSearchResults_def scrollResults_queryAll)

lemma reaches_cards_queryAll:
  "reaches_cards (w\<lparr>page_queryAll := f\<rparr>) q l = reaches_cards w q l"
  by (simp add: reaches_cards_def performSearch_queryAll waitForSearchResults_queryAll)

lemma searchBusinesses_queryAll:
  assumes "page_queryAll w sel_businessCard = Inr cards"
    and "f sel_businessCard = Inr cards'"
    and "slice0 cards' limit = slice0 cards limit"
  shows "searchBusinesses (w\<lparr>page_queryAll := f\<rparr>) q l limit = searchBusinesses w q l limit"
proof -
  have "extractBusinessCards (w\<lparr>page_queryAll := f\<rparr>) limit = extractBusinessCards w limit"
    using assms by (simp add: extractBusinessCards_def bindE_def)
  then show ?thesis
    by (simp add: searchBusinesses_def performSearch_queryAll waitForSearchResults_queryAll
        process_cards_queryAll)
qed

lemma waitForSearchResults_no_results:
  assumes "waitForSelector w sel_businessCard = Inl e"
    and "page_query w sel_noResultsMessage = Inr (Some el)"
  shows "waitForSearchResults w = Inl (Error ''No results found for search query'')"
  using assms by (simp add: waitForSearchResults_def try_catch_def bindE_def)

lemma no_results_throws:
  assumes "createPage w = Inr ()" and "goto w ''https://maps.google.com'' = Inr ()"
    and "simulateHumanBehavior w = Inr ()" and "performSearch w q l = Inr ()"
    and "waitForSelector w sel_businessCard = Inl e"
    and "page_query w sel_noResultsMessage = Inr (Some el)"
  shows "searchBusinesses w q l limit
           = (Inl (Error ''No results found for search query''), [])"
  using assms(1-4) waitForSearchResults_no_results [OF assms(5,6)]
  by (simp add: searchBusinesses_def try_catchT_def bindT_def quiet_def)

lemma clicked_append: "clicked (a @ b) = clicked a @ clicked b"
  by (simp add: clicked_def)

lemma clicked_concat: "clicked (concat ts) = concat (map clicked ts)"
  by (induction ts) (simp_all add: clicked_append, simp add: clicked_def)

lemma clicked_detail_calls: "clicked (detail_calls c) = [c]"
  by (cases "click c"; cases "panel_ready c"; cases "panel_settle c")
     (simp_all add: clicked_def detail_calls_def)

lemma clicked_card_calls:
  "clicked (card_calls w i c) = (if i = 0 \<or> humanDelay w i = Inr () then [c] else [])"
proof -
  have "clicked (Delay i # t) = clicked t" for t
    by (simp add: clicked_def)
  then show ?thesis
    by (auto simp: card_calls_def clicked_detail_calls split: sum.splits) (simp add: clicked_def)
qed

lemma Click_in_clicked: "Click c \<in> set t \<longleftrightarrow> c \<in> set (clicked t)"
proof (induction t)
  case Nil
  show ?case by (simp add: clicked_def)
next
  case (Cons ev t)
  have "clicked (ev # t) = clicked [ev] @ clicked t"
    using clicked_append [of "[ev]" t] by simp
  then show ?case
    using Cons by (cases ev) (auto simp: clicked_def)
qed

lemma map_nth_take:
  assumes "k \<le> length xs"
  shows "map (\<lambda>i. xs ! i) [0..<k] = take k xs"
  using assms by (metis length_take map_nth min.absorb2 nth_take map_cong atLeastLessThan_iff set_upt)

lemma clicked_session_subset:
  "set (clicked (concat (map (\<lambda>i. card_calls w i (cards ! i)) [0..<min n (length cards)])))
     \<subseteq> set (take n cards)"
proof
  fix c
  assume "c \<in> set (clicked (concat (map (\<lambda>i. card_calls w i (cards ! i))
      [0..<min n (length cards)])))"
  then obtain i where i: "i < min n (length cards)" "c \<in> set (clicked (card_calls w i (cards ! i)))"
    by (auto simp: clicked_concat)
  then have "c = cards ! i"
    by (simp add: clicked_card_calls split: if_splits)
  with i(1) show "c \<in> set (take n cards)"
    by (metis in_set_conv_nth length_take min.commute nth_take min_less_iff_conj)
qed

lemma concat_map_single: "concat (map (\<lambda>i. [f i]) xs) = map f xs"
  by (induction xs) simp_all

lemma clicked_session_all:
  assumes "\<forall>i. humanDelay w i = Inr ()"
  shows "clicked (concat (map (\<lambda>i. card_calls w i (cards ! i)) [0..<min n (length cards)]))
           = take n cards"
proof -
  have e: "(\<lambda>i. clicked (card_calls w i (cards ! i))) = (\<lambda>i. [cards ! i])"
    using assms by (simp add: clicked_card_calls)
  have "clicked (concat (map (\<lambda>i. card_calls w i (cards ! i)) [0..<min n (length cards)]))
      = concat (map (\<lambda>i. clicked (card_calls w i (cards ! i))) [0..<min n (length cards)])"
    by (simp add: clicked_concat comp_def)
  also have "\<dots> = map (\<lambda>i. cards ! i) [0..<min n (length cards)]"
    unfolding e by (rule concat_map_single)
  also have "\<dots> = take (min n (length cards)) cards"
    by (rule map_nth_take) simp
  also have "\<dots> = take n cards"
    by (simp add: min_def)
  finally show ?thesis .
qed

lemma card_calls_nonempty: "card_calls w i c \<noteq> []"
  by (simp add: card_calls_def detail_calls_def)

lemma session_results_pinned:
  assumes "reaches_cards w q l" and "page_queryAll w sel_businessCard = Inr cards"
    and "close w = Inr ()"
  shows "\<exists>results. fst (searchBusinesses w q l (int n)) = Inr results
           \<and> length results = min n (length cards)
           \<and> (\<forall>i<length results.
                 (\<forall>e. card_throws w i (cards ! i) = Some e \<longrightarrow> results ! i = failure e)
                 \<and> (card_throws w i (cards ! i) = None \<longrightarrow>
                      (\<exists>b. extractBusinessData (stamps (cards ! i)) (detail (cards ! i)) = Inr b
                          \<and> results ! i
                              = \<lparr>success = True, business = Some b, error = None,
                                 retryable = None,
                                 duration = Some (finished (cards ! i) - scrapedAt b)\<rparr>)))"
proof -
  from session_results [OF assms, of n]
  obtain results where r: "fst (searchBusinesses w q l (int n)) = Inr results"
    "length results = min n (length cards)"
    "\<forall>i<length results. fst (process_card w i (cards ! i) []) = Inr [results ! i]"
    by blast
  have "(\<forall>e. card_throws w i (cards ! i) = Some e \<longrightarrow> results ! i = failure e)
      \<and> (card_throws w i (cards ! i) = None \<longrightarrow>
           (\<exists>b. extractBusinessData (stamps (cards ! i)) (detail (cards ! i)) = Inr b
               \<and> results ! i
                   = \<lparr>success = True, business = Some b, error = None, retryable = None,
                      duration = Some (finished (cards ! i) - scrapedAt b)\<rparr>))"
    if i: "i < length results" for i
  proof (intro conjI allI impI)
    fix e assume "card_throws w i (cards ! i) = Some e"
    then have "process_card w i (cards ! i) [] = (Inr ([] @ [failure e]), card_calls w i (cards ! i))"
      by (rule process_card_throws)
    moreover have "fst (process_card w i (cards ! i) []) = Inr [results ! i]"
      using r(3) i by blast
    ultimately show "results ! i = failure e"
      by simp
  next
    assume n: "card_throws w i (cards ! i) = None"
    obtain b where b: "extractBusinessData (stamps (cards ! i)) (detail (cards ! i)) = Inr b"
      using extractBusinessData_returns by blast
    have "fst (process_card w i (cards ! i) []) = Inr [results ! i]"
      using r(3) i by blast
    with process_card_succeeds [OF n b, of "[]"]
    have "results ! i = \<lparr>success = True, business = Some b, error = None, retryable = None,
        duration = Some (finished (cards ! i) - scrapedAt b)\<rparr>"
      by simp
    with b show "\<exists>b. extractBusinessData (stamps (cards ! i)) (detail (cards ! i)) = Inr b
        \<and> results ! i = \<lparr>success = True, business = Some b, error = None, retryable = None,
             duration = Some (finished (cards ! i) - scrapedAt b)\<rparr>"
      by blast
  qed
  with r(1,2) show ?thesis by blast
qed

text \<open>
  Claim C5, as the code has it. When the steps before the wait for the results succeed, no
  result card appears within the wait (\<open>waitForSelector\<close> throws) and the page shows the
  "no results" indicator, the session throws an \<open>Error\<close> with the message
  \<open>No results found for search query\<close> to the caller, without a call for any card; it
  does not return an empty sequence.
\<close>

theorem no_results_is_thrown:
  "createPage w = Inr () \<and> goto w ''https://maps.google.com'' = Inr ()
   \<and> simulateHumanBehavior w = Inr () \<and> performSearch w q l = Inr ()
   \<and> waitForSelector w sel_businessCard = Inl e
   \<and> page_query w sel_noResultsMessage = Inr (Some el)
   \<longrightarrow> searchBusinesses w q l limit
         = (Inl (Error ''No results found for search query''), [])"
  using no_results_throws [of w q l e el limit] by blast

theorem no_results_is_thrown_witness:
  "createPage no_results_world = Inr ()
   \<and> waitForSelector no_results_world sel_businessCard = Inl (Error ''Timeout 15000ms exceeded'')
   \<and> page_query no_results_world sel_noResultsMessage
       = Inr (Some (text_element ''No results found''))
   \<and> searchBusinesses no_results_world ''cafe'' ''Tel Aviv'' 20
       = (Inl (Error ''No results found for search query''), [])"
  using no_results_is_thrown
    [of no_results_world "''cafe''" "''Tel Aviv''" "Error ''Timeout 15000ms exceeded''"
      "text_element ''No results found''" 20]
  by (simp add: no_results_world_def sample_world_def performSearch_def bindE_def)

text \<open>
  Claim C5 as stated fails: in a session where no card appears and the page shows the
  "no results" indicator, the session does not return the empty sequence; it throws.
\<close>

theorem no_results_counterexample:
  "page_query no_results_world sel_noResultsMessage
     = Inr (Some (text_element ''No results found''))
   \<and> fst (searchBusinesses no_results_world ''cafe'' ''Tel Aviv'' 20) \<noteq> Inr []
   \<and> fst (searchBusinesses no_results_world ''cafe'' ''Tel Aviv'' 20)
       = Inl (Error ''No results found for search query'')"
proof -
  have "searchBusinesses no_results_world ''cafe'' ''Tel Aviv'' 20
          = (Inl (Error ''No results found for search query''), [])"
    by (rule no_results_throws
          [where e = "Error ''Timeout 15000ms exceeded''"
             and el = "text_element ''No results found''"])
       (simp_all add: no_results_world_def sample_world_def performSearch_def bindE_def)
  then show ?thesis
    by (simp add: no_results_world_def)
qed

text \<open>
  Claim C6. Take a session with limit \<open>n\<close> that reaches the enumeration of the cards, and
  let \<open>cards\<close> be the cards of the page in DOM order. The calls the session makes for
  cards are, in this order, the calls for the card at position 0, for the card at position
  1, and so on up to position \<open>min n (length cards) - 1\<close>, and no others; each of these
  cards is attempted (calls are made for it) and no card beyond them is ever clicked. When
  no delay throws, the cards clicked are exactly the first \<open>n\<close> cards of the page, each
  once, in DOM order. When the page is closed without a throw, the session returns exactly
  \<open>min n (length cards)\<close> results, and the result at position \<open>i\<close> is the result for
  the card at position \<open>i\<close>: the failure record of the first throw, or else the success
  record with the business assembled from that card's detail panel. Whatever cards follow
  the first \<open>n\<close>, the session is the same.
\<close>

theorem session_takes_first_limit_cards:
  "(reaches_cards w q l \<and> page_queryAll w sel_businessCard = Inr cards
    \<longrightarrow> snd (searchBusinesses w q l (int n))
          = concat (map (\<lambda>i. card_calls w i (cards ! i)) [0..<min n (length cards)])
      \<and> (\<forall>i<min n (length cards). card_calls w i (cards ! i) \<noteq> [])
      \<and> (\<forall>c. Click c \<in> set (snd (searchBusinesses w q l (int n))) \<longrightarrow> c \<in> set (take n cards))
      \<and> ((\<forall>i. humanDelay w i = Inr ())
           \<longrightarrow> clicked (snd (searchBusinesses w q l (int n))) = take n cards))
   \<and> (reaches_cards w q l \<and> page_queryAll w sel_businessCard = Inr cards \<and> close w = Inr ()
       \<longrightarrow> (\<exists>results. fst (searchBusinesses w q l (int n)) = Inr results
              \<and> length results = min n (length cards)
              \<and> (\<forall>i<length results.
                    (\<forall>e. card_throws w i (cards ! i) = Some e \<longrightarrow> results ! i = failure e)
                    \<and> (card_throws w i (cards ! i) = None \<longrightarrow>
                         (\<exists>b. extractBusinessData (stamps (cards ! i)) (detail (cards ! i))
                                = Inr b
                             \<and> results ! i
                                 = \<lparr>success = True, business = Some b, error = None,
                                    retryable = None,
                                    duration = Some (finished (cards ! i) - scrapedAt b)\<rparr>)))))
   \<and> (page_queryAll w sel_businessCard = Inr cards
       \<longrightarrow> extractBusinessCards w (int n) = Inr (take n cards))
   \<and> (page_queryAll w sel_businessCard = Inr cards \<and> take n cards' = take n cards
       \<longrightarrow> searchBusinesses
             (w\<lparr>page_queryAll := (page_queryAll w)(sel_businessCard := Inr cards')\<rparr>) q l (int n)
           = searchBusinesses w q l (int n))"
proof (intro conjI impI)
  assume a: "reaches_cards w q l \<and> page_queryAll w sel_businessCard = Inr cards"
  then show t: "snd (searchBusinesses w q l (int n))
      = concat (map (\<lambda>i. card_calls w i (cards ! i)) [0..<min n (length cards)])"
    by (intro session_trace) simp_all
  show "\<forall>i<min n (length cards). card_calls w i (cards ! i) \<noteq> []"
    by (simp add: card_calls_nonempty)
  show "\<forall>c. Click c \<in> set (snd (searchBusinesses w q l (int n))) \<longrightarrow> c \<in> set (take n cards)"
    unfolding t Click_in_clicked using clicked_session_subset [of w cards n] by blast
  show "clicked (snd (searchBusinesses w q l (int n))) = take n cards"
    if "\<forall>i. humanDelay w i = Inr ()"
    unfolding t using that by (rule clicked_session_all)
next
  assume "reaches_cards w q l \<and> page_queryAll w sel_businessCard = Inr cards \<and> close w = Inr ()"
  then show "\<exists>results. fst (searchBusinesses w q l (int n)) = Inr results
      \<and> length results = min n (length cards)
      \<and> (\<forall>i<length results.
            (\<forall>e. card_throws w i (cards ! i) = Some e \<longrightarrow> results ! i = failure e)
            \<and> (card_throws w i (cards ! i) = None \<longrightarrow>
                 (\<exists>b. extractBusinessData (stamps (cards ! i)) (detail (cards ! i)) = Inr b
                     \<and> results ! i
                         = \<lparr>success = True, business = Some b, error = None,
                            retryable = None,
                            duration = Some (finished (cards ! i) - scrapedAt b)\<rparr>)))"
    using session_results_pinned [of w q l cards n] by blast
next
  assume "page_queryAll w sel_businessCard = Inr cards"
  then show "extractBusinessCards w (int n) = Inr (take n cards)"
    by (simp add: extractBusinessCards_def bindE_def slice0_nat)
next
  assume "page_queryAll w sel_businessCard = Inr cards \<and> take n cards' = take n cards"
  then show "searchBusinesses
             (w\<lparr>page_queryAll := (page_queryAll w)(sel_businessCard := Inr cards')\<rparr>) q l (int n)
           = searchBusinesses w q l (int n)"
    by (intro searchBusinesses_queryAll [where cards = cards and cards' = cards'])
       (simp_all add: slice0_nat)
qed

theorem session_takes_first_limit_cards_witness:
  "reaches_cards (sample_world (map numbered_card [0..<12])) ''cafe'' ''Tel Aviv''
   \<and> clicked (snd (searchBusinesses (sample_world (map numbered_card [0..<12]))
                     ''cafe'' ''Tel Aviv'' 5))
       = map numbered_card [0..<5]
   \<and> (\<exists>results.
         fst (searchBusinesses (sample_world (map numbered_card [0..<12]))
                ''cafe'' ''Tel Aviv'' 5) = Inr results
         \<and> length results = 5 \<and> success (results ! 4))
   \<and> searchBusinesses
        ((sample_world (map numbered_card [0..<12]))
           \<lparr>page_queryAll :=
              (page_queryAll (sample_world (map numbered_card [0..<12])))
                (sel_businessCard := Inr (map numbered_card [0..<5] @ [timeout_card]))\<rparr>)
        ''cafe'' ''Tel Aviv'' 5
      = searchBusinesses (sample_world (map numbered_card [0..<12])) ''cafe'' ''Tel Aviv'' 5"
proof -
  let ?cards = "map numbered_card [0..<12]"
  let ?w = "sample_world ?cards"
  have r: "reaches_cards ?w ''cafe'' ''Tel Aviv''"
    by (simp add: reaches_cards_def sample_world_def performSearch_def
        waitForSearchResults_def scrollResults_def try_catch_def bindE_def)
  have q: "page_queryAll ?w sel_businessCard = Inr ?cards" and c: "close ?w = Inr ()"
    and d: "\<forall>i. humanDelay ?w i = Inr ()"
    by (simp_all add: sample_world_def)
  have t: "take 5 (map numbered_card [0..<5] @ [timeout_card]) = take 5 ?cards"
    by (simp add: take_map)
  have t5: "take 5 ?cards = map numbered_card [0..<5]"
    by (simp add: take_map)
  have n4: "card_throws ?w 4 (?cards ! 4) = None"
    by (simp add: card_throws_def sample_world_def numbered_card_def ok_card_def)
  note th = session_takes_first_limit_cards
    [of ?w "''cafe''" "''Tel Aviv''" ?cards 5 "map numbered_card [0..<5] @ [timeout_card]"]
  note part1 = mp [OF th [THEN conjunct1] conjI [OF r q]]
  note part2 = mp [OF th [THEN conjunct2, THEN conjunct1] conjI [OF r conjI [OF q c]]]
  note part4 = mp [OF th [THEN conjunct2, THEN conjunct2, THEN conjunct2] conjI [OF q t]]
  have 1: "clicked (snd (searchBusinesses ?w ''cafe'' ''Tel Aviv'' (int 5))) = take 5 ?cards"
    using part1 d by blast
  from part2 obtain results where res:
    "fst (searchBusinesses ?w ''cafe'' ''Tel Aviv'' (int 5)) = Inr results"
    "length results = min 5 (length ?cards)"
    "\<forall>i<length results. card_throws ?w i (?cards ! i) = None \<longrightarrow>
       (\<exists>b. extractBusinessData (stamps (?cards ! i)) (detail (?cards ! i)) = Inr b
           \<and> results ! i = \<lparr>success = True, business = Some b, error = None,
                 retryable = None, duration = Some (finished (?cards ! i) - scrapedAt b)\<rparr>)"
    by blast
  have len: "length results = 5"
    using res(2) by simp
  then have "4 < length results"
    by simp
  with res(3) n4 obtain b where "results ! 4 = \<lparr>success = True, business = Some b,
      error = None, retryable = None, duration = Some (finished (?cards ! 4) - scrapedAt b)\<rparr>"
    by blast
  then have 2: "success (results ! 4)"
    by simp
  from r 1 t5 res(1) len 2 part4 show ?thesis
    by auto
qed

lemma session_results_updated_card:
  assumes "reaches_cards w q l" and "page_queryAll w sel_businessCard = Inr cards"
    and "close w = Inr ()"
    and "fst (searchBusinesses w q l (int n)) = Inr results"
    and "\<forall>j<length results. fst (process_card w j (cards ! j) []) = Inr [results ! j]"
    and "length results = min n (length cards)"
  shows "\<exists>results'.
           fst (searchBusinesses
             (w\<lparr>page_queryAll := (page_queryAll w)(sel_businessCard := Inr (cards[i := c']))\<rparr>)
             q l (int n)) = Inr results'
           \<and> length results' = length results
           \<and> (\<forall>j<length results. j \<noteq> i \<longrightarrow> results' ! j = results ! j)"
proof -
  let ?w = "w\<lparr>page_queryAll := (page_queryAll w)(sel_businessCard := Inr (cards[i := c']))\<rparr>"
  have "reaches_cards ?w q l"
    using assms(1) by (simp only: reaches_cards_queryAll)
  moreover have "page_queryAll ?w sel_businessCard = Inr (cards[i := c'])"
    by simp
  moreover have "close ?w = Inr ()"
    using assms(3) by simp
  ultimately obtain rs where rs: "fst (searchBusinesses ?w q l (int n)) = Inr rs"
    "length rs = min n (length (cards[i := c']))"
    "\<forall>j<length rs. fst (process_card ?w j (cards[i := c'] ! j) []) = Inr [rs ! j]"
    using session_results [of ?w q l "cards[i := c']" n] by blast
  have len: "length rs = length results"
    using rs(2) assms(6) by simp
  have "\<forall>j<length results. j \<noteq> i \<longrightarrow> rs ! j = results ! j"
  proof (intro allI impI)
    fix j assume j: "j < length results" "j \<noteq> i"
    have "fst (process_card ?w j (cards[i := c'] ! j) []) = Inr [rs ! j]"
      using rs(3) j(1) len by simp
    then have "fst (process_card w j (cards ! j) []) = Inr [rs ! j]"
      using j(2) by (simp add: process_card_queryAll)
    moreover have "fst (process_card w j (cards ! j) []) = Inr [results ! j]"
      using assms(5) j(1) by simp
    ultimately show "rs ! j = results ! j" by simp
  qed
  with rs(1) len show ?thesis by blast
qed

text \<open>
  Claim C7. The loop over the cards never aborts: it returns one result per card. In a
  session that reaches the cards and closes its page, when processing the card at position
  \<open>i\<close> within the limit throws \<open>e\<close> (in the delay before it, the click, the wait for the
  detail panel, as when the panel is not ready within its timeout, or the settling wait),
  the session still returns \<open>min n (length cards)\<close> results; the result at position \<open>i\<close>
  is the failure result for \<open>e\<close>, tagged \<open>success = false\<close>; every position holds the
  result of the round for its own card, so the later cards are attempted; and replacing the
  card at position \<open>i\<close> by any other card leaves the results at all other positions
  unchanged.
\<close>

theorem card_failure_isolated:
  "(\<exists>results. fst (process_cards w 0 cs []) = Inr results \<and> length results = length cs)
   \<and> (reaches_cards w q l \<and> page_queryAll w sel_businessCard = Inr cards \<and> close w = Inr ()
       \<and> i < min n (length cards) \<and> card_throws w i (cards ! i) = Some e
      \<longrightarrow> (\<exists>results. fst (searchBusinesses w q l (int n)) = Inr results
             \<and> length results = min n (length cards)
             \<and> results ! i = failure e
             \<and> \<not> success (results ! i)
             \<and> error (results ! i) = Some (error_message e)
             \<and> (\<forall>j<length results. fst (process_card w j (cards ! j) []) = Inr [results ! j])
             \<and> (\<forall>c'. \<exists>results'.
                   fst (searchBusinesses
                     (w\<lparr>page_queryAll :=
                          (page_queryAll w)(sel_businessCard := Inr (cards[i := c']))\<rparr>)
                     q l (int n)) = Inr results'
                   \<and> length results' = length results
                   \<and> (\<forall>j<length results. j \<noteq> i \<longrightarrow> results' ! j = results ! j))))"
proof (intro conjI impI)
  show "\<exists>results. fst (process_cards w 0 cs []) = Inr results \<and> length results = length cs"
    using process_cards_spec [of w 0 cs "[]"] by auto
next
  assume a: "reaches_cards w q l \<and> page_queryAll w sel_businessCard = Inr cards
       \<and> close w = Inr () \<and> i < min n (length cards) \<and> card_throws w i (cards ! i) = Some e"
  then obtain results where r: "fst (searchBusinesses w q l (int n)) = Inr results"
    "length results = min n (length cards)"
    "\<forall>j<length results. fst (process_card w j (cards ! j) []) = Inr [results ! j]"
    using session_results [of w q l cards n] by blast
  have "fst (process_card w i (cards ! i) []) = Inr [results ! i]"
    using r(2,3) a by simp
  moreover have "process_card w i (cards ! i) []
      = (Inr ([] @ [failure e]), card_calls w i (cards ! i))"
    using a by (intro process_card_throws) simp
  ultimately have f: "results ! i = failure e"
    by simp
  have u: "\<forall>c'. \<exists>results'.
      fst (searchBusinesses
        (w\<lparr>page_queryAll := (page_queryAll w)(sel_businessCard := Inr (cards[i := c']))\<rparr>)
        q l (int n)) = Inr results'
      \<and> length results' = length results
      \<and> (\<forall>j<length results. j \<noteq> i \<longrightarrow> results' ! j = results ! j)"
    using session_results_updated_card [of w q l cards n results i] a r by blast
  have "\<not> success (results ! i)" "error (results ! i) = Some (error_message e)"
    using f by (simp_all add: failure_def)
  with r f u
  show "\<exists>results. fst (searchBusinesses w q l (int n)) = Inr results
             \<and> length results = min n (length cards)
             \<and> results ! i = failure e
             \<and> \<not> success (results ! i)
             \<and> error (results ! i) = Some (error_message e)
             \<and> (\<forall>j<length results. fst (process_card w j (cards ! j) []) = Inr [results ! j])
             \<and> (\<forall>c'. \<exists>results'.
                   fst (searchBusinesses
                     (w\<lparr>page_queryAll :=
                          (page_queryAll w)(sel_businessCard := Inr (cards[i := c']))\<rparr>)
                     q l (int n)) = Inr results'
                   \<and> length results' = length results
                   \<and> (\<forall>j<length results. j \<noteq> i \<longrightarrow> results' ! j = results ! j))"
    by blast
qed

theorem card_failure_isolated_witness:
  "reaches_cards (sample_world five_cards) ''cafe'' ''Tel Aviv''
   \<and> card_throws (sample_world five_cards) 2 (five_cards ! 2)
       = Some (Error ''Timeout 10000ms exceeded'')
   \<and> (\<exists>results.
         fst (searchBusinesses (sample_world five_cards) ''cafe'' ''Tel Aviv'' 5) = Inr results
          \<and> length results = 5
          \<and> \<not> success (results ! 2)
          \<and> error (results ! 2) = Some ''Timeout 10000ms exceeded''
          \<and> success (results ! 3) \<and> success (results ! 4))"
proof -
  let ?w = "sample_world five_cards"
  have r: "reaches_cards ?w ''cafe'' ''Tel Aviv''"
    by (simp add: reaches_cards_def sample_world_def performSearch_def
        waitForSearchResults_def scrollResults_def try_catch_def bindE_def)
  have q: "page_queryAll ?w sel_businessCard = Inr five_cards" and c: "close ?w = Inr ()"
    by (simp_all add: sample_world_def)
  have l: "length five_cards = 5"
    by (simp add: five_cards_def)
  have t: "card_throws ?w 2 (five_cards ! 2) = Some (Error ''Timeout 10000ms exceeded'')"
    by (simp add: card_throws_def five_cards_def sample_world_def timeout_card_def ok_card_def)
  have n3: "card_throws ?w 3 (five_cards ! 3) = None"
    and n4: "card_throws ?w 4 (five_cards ! 4) = None"
    by (simp_all add: card_throws_def five_cards_def sample_world_def ok_card_def)
  obtain b3 where b3: "extractBusinessData (stamps (five_cards ! 3)) (detail (five_cards ! 3))
      = Inr b3"
    using extractBusinessData_returns by blast
  obtain b4 where b4: "extractBusinessData (stamps (five_cards ! 4)) (detail (five_cards ! 4))
      = Inr b4"
    using extractBusinessData_returns by blast
  note ok3 = process_card_succeeds [OF n3 b3, of "[]"]
  note ok4 = process_card_succeeds [OF n4 b4, of "[]"]
  from card_failure_isolated
    [of ?w "[]" "''cafe''" "''Tel Aviv''" five_cards 2 5 "Error ''Timeout 10000ms exceeded''"]
    r q c l t
  obtain results where res:
    "fst (searchBusinesses ?w ''cafe'' ''Tel Aviv'' 5) = Inr results" "length results = 5"
    "\<not> success (results ! 2)"
    "error (results ! 2) = Some (error_message (Error ''Timeout 10000ms exceeded''))"
    "\<forall>j<length results. fst (process_card ?w j (five_cards ! j) []) = Inr [results ! j]"
    by auto
  have "fst (process_card ?w 3 (five_cards ! 3) []) = Inr [results ! 3]"
    "fst (process_card ?w 4 (five_cards ! 4) []) = Inr [results ! 4]"
    using res(2,5) by simp_all
  then have "\<lparr>success = True, business = Some b3, error = None, retryable = None,
        duration = Some (finished (five_cards ! 3) - scrapedAt b3)\<rparr> = results ! 3"
    and "\<lparr>success = True, business = Some b4, error = None, retryable = None,
        duration = Some (finished (five_cards ! 4) - scrapedAt b4)\<rparr> = results ! 4"
    using ok3 ok4 by simp_all
  from this [symmetric] have "success (results ! 3)" "success (results ! 4)"
    by simp_all
  with res r t show ?thesis
    by (auto simp: error_message_def)
qed

section \<open>Parsing the rating\<close>

lemma match_One:
  "match_items (Cls One p # is) s =
     (case s of [] \<Rightarrow> None | c # cs \<Rightarrow> if p c then match_items is cs else None)"
  by (cases s) simp_all

lemma match_lit:
  "match_items (lit t) s = Some (g, r) \<longleftrightarrow> s = t @ r \<and> g = r"
proof (induction t arbitrary: s)
  case Nil
  then show ?case by (auto simp: lit_def)
next
  case (Cons c t)
  have "lit (c # t) = Cls One (\<lambda>x. x = c) # lit t"
    by (simp add: lit_def)
  then show ?case
    using Cons.IH by (cases s) (auto simp: match_One)
qed

lemma match_lit_head:
  assumes "c \<noteq> d"
  shows "match_items (lit (d # t)) (c # cs) = None"
  using assms by (simp add: lit_def)

lemma match_GroupEnd:
  "match_items (GroupEnd # is) s =
     (case match_items is s of None \<Rightarrow> None | Some (g, r) \<Rightarrow> Some (s, r))"
  by simp

lemma Star_greedy:
  assumes "\<And>c cs. p c \<Longrightarrow> match_items is (dropWhile p cs) = None
             \<Longrightarrow> match_items is (c # cs) = None"
  shows "match_items (Cls Star p # is) s = match_items is (dropWhile p s)"
proof (induction s)
  case Nil
  then show ?case by simp
next
  case (Cons c cs)
  show ?case
  proof (cases "p c")
    case False
    then show ?thesis by simp
  next
    case True
    show ?thesis
    proof (cases "match_items is (dropWhile p cs)")
      case None
      then show ?thesis
        using True Cons.IH assms [OF True None] by simp
    next
      case (Some m)
      then show ?thesis
        using True Cons.IH by simp
    qed
  qed
qed

lemma Opt_greedy:
  assumes "\<And>c cs. p c \<Longrightarrow> match_items is (c # cs) = None"
  shows "match_items (Cls Opt p # is) s =
           (case s of [] \<Rightarrow> match_items is []
            | c # cs \<Rightarrow> if p c then match_items is cs else match_items is (c # cs))"
proof (cases s)
  case Nil
  then show ?thesis by simp
next
  case (Cons c cs)
  then show ?thesis
    using assms [of c cs] by (cases "match_items is cs") auto
qed


lemma not_space_s: "\<not> is_space CHR ''s''"
  by (simp add: is_space_def)

lemma not_digit_s: "\<not> is_digit CHR ''s''"
  by (simp add: is_digit_def)

lemma digit_not_space: "is_digit c \<Longrightarrow> \<not> is_space c"
  by (auto simp: is_digit_def is_space_def)

lemma not_space_dot: "\<not> is_space CHR ''.''"
  by (simp add: is_space_def)

lemma not_digit_dot: "\<not> is_digit CHR ''.''"
  by (simp add: is_digit_def)


lemma k2:
  "match_items (Cls Star is_space # lit ''star'') s
     = match_items (lit ''star'') (dropWhile is_space s)"
proof (rule Star_greedy)
  fix c cs
  assume "is_space c"
  then have "c \<noteq> CHR ''s''"
    using not_space_s by auto
  then show "match_items (lit ''star'') (c # cs) = None"
    by (rule match_lit_head)
qed

lemma k3_head:
  assumes "\<not> is_space c" and "c \<noteq> CHR ''s''"
  shows "match_items (GroupEnd # Cls Star is_space # lit ''star'') (c # cs) = None"
  using assms by (simp add: k2 match_lit_head del: match_items.simps(9,10))

lemma k4:
  "match_items (Cls Star is_digit # GroupEnd # Cls Star is_space # lit ''star'') s
     = match_items (GroupEnd # Cls Star is_space # lit ''star'') (dropWhile is_digit s)"
  by (rule Star_greedy) (metis k3_head digit_not_space not_digit_s)

lemma k4_dot:
  "match_items (Cls Star is_digit # GroupEnd # Cls Star is_space # lit ''star'')
     (CHR ''.'' # cs) = None"
  by (simp only: k4) (simp add: not_digit_dot k3_head not_space_dot del: match_items.simps)

lemma k5:
  "match_items (Cls Opt (\<lambda>x. x = CHR ''.'') # Cls Star is_digit # GroupEnd
      # Cls Star is_space # lit ''star'') s
     = match_items (GroupEnd # Cls Star is_space # lit ''star'')
         (case s of [] \<Rightarrow> []
          | c # r \<Rightarrow> if c = CHR ''.'' then dropWhile is_digit r else dropWhile is_digit s)"
proof -
  have "match_items (Cls Opt (\<lambda>x. x = CHR ''.'') # Cls Star is_digit # GroupEnd
      # Cls Star is_space # lit ''star'') s
     = (case s of [] \<Rightarrow> match_items (Cls Star is_digit # GroupEnd
                          # Cls Star is_space # lit ''star'') []
        | c # cs \<Rightarrow> if c = CHR ''.''
            then match_items (Cls Star is_digit # GroupEnd # Cls Star is_space # lit ''star'') cs
            else match_items (Cls Star is_digit # GroupEnd # Cls Star is_space # lit ''star'')
                   (c # cs))"
    by (rule Opt_greedy) (simp only: k4_dot)
  then show ?thesis
    unfolding k4 by (cases s) (simp_all del: match_items.simps)
qed


lemma k3_iff:
  "match_items (GroupEnd # Cls Star is_space # lit ''star'') u = Some (g, r)
     \<longleftrightarrow> g = u \<and> dropWhile is_space u = ''star'' @ r"
proof (cases "match_items (lit ''star'') (dropWhile is_space u)")
  case None
  then have "dropWhile is_space u \<noteq> ''star'' @ r"
    using match_lit [of "''star''" "dropWhile is_space u" r r] by auto
  with None show ?thesis
    by (simp add: k2 del: match_items.simps(9,10))
next
  case (Some m)
  obtain g' r' where m: "m = (g', r')" by (cases m)
  with Some have "dropWhile is_space u = ''star'' @ r'"
    using match_lit [of "''star''" "dropWhile is_space u" g' r'] by simp
  with Some m show ?thesis
    by (auto simp: k2 simp del: match_items.simps(9,10))
qed

lemma k3_Nil: "match_items (GroupEnd # Cls Star is_space # lit ''star'') [] = None"
  by (simp add: lit_def)

lemma k5_after:
  "match_items (Cls Opt (\<lambda>x. x = CHR ''.'') # Cls Star is_digit # GroupEnd
      # Cls Star is_space # lit ''star'') (dropWhile is_digit cs)
     = match_items (GroupEnd # Cls Star is_space # lit ''star'') (after_number cs)"
proof (cases "dropWhile is_digit cs")
  case Nil
  show ?thesis
    unfolding k5 after_number_def Let_def Nil by (simp del: match_items.simps)
next
  case (Cons d r)
  then have "\<not> is_digit d"
    using hd_dropWhile [of is_digit cs] by auto
  then show ?thesis
    unfolding k5 after_number_def Let_def Cons by (simp del: match_items.simps)
qed

lemma k6:
  "match_items (Cls Star is_digit # Cls Opt (\<lambda>x. x = CHR ''.'') # Cls Star is_digit # GroupEnd
      # Cls Star is_space # lit ''star'') s
     = match_items (Cls Opt (\<lambda>x. x = CHR ''.'') # Cls Star is_digit # GroupEnd
         # Cls Star is_space # lit ''star'') (dropWhile is_digit s)"
proof (rule Star_greedy)
  fix c cs
  assume c: "is_digit c"
    and n: "match_items (Cls Opt (\<lambda>x. x = CHR ''.'') # Cls Star is_digit # GroupEnd
              # Cls Star is_space # lit ''star'') (dropWhile is_digit cs) = None"
  have cd: "c \<noteq> CHR ''.''"
    using c not_digit_dot by auto
  have "match_items (GroupEnd # Cls Star is_space # lit ''star'') (dropWhile is_digit cs) = None"
  proof (cases "dropWhile is_digit cs")
    case Nil
    then show ?thesis by (simp only: k3_Nil)
  next
    case (Cons d r)
    show ?thesis
    proof (cases "d = CHR ''.''")
      case True
      then show ?thesis
        unfolding Cons by (intro k3_head) (simp_all add: not_space_dot)
    next
      case False
      have "dropWhile is_digit (dropWhile is_digit cs) = dropWhile is_digit cs"
        by (rule dropWhile_idem)
      then show ?thesis
        using n False unfolding k5 Cons by (simp del: match_items.simps)
    qed
  qed
  then show "match_items (Cls Opt (\<lambda>x. x = CHR ''.'') # Cls Star is_digit # GroupEnd
               # Cls Star is_space # lit ''star'') (c # cs) = None"
    unfolding k5 using c cd by (simp del: match_items.simps)
qed

lemma rating_closed:
  "match_items rating_re s =
     (case s of [] \<Rightarrow> None
      | c # cs \<Rightarrow>
          if is_digit c
          then match_items (GroupEnd # Cls Star is_space # lit ''star'') (after_number cs)
          else None)"
proof (cases s)
  case Nil
  then show ?thesis by (simp add: rating_re_def)
next
  case (Cons c cs)
  have "match_items rating_re (c # cs) =
      (if is_digit c
       then match_items (Cls Star is_digit # Cls Opt (\<lambda>x. x = CHR ''.'') # Cls Star is_digit
              # GroupEnd # Cls Star is_space # lit ''star'') cs
       else None)"
    by (simp add: rating_re_def del: match_items.simps(2,7,8,9,10))
  then show ?thesis
    unfolding Cons by (simp only: k6 k5_after list.case)
qed


lemma after_number_split:
  assumes "is_digit c"
  shows "\<exists>x. cs = x @ after_number cs \<and> number_text (c # x)"
proof (cases "dropWhile is_digit cs")
  case Nil
  then have all: "list_all is_digit cs"
    by (simp add: list_all_iff)
  have "after_number cs = []"
    unfolding after_number_def Let_def Nil by simp
  moreover have "number_text (c # cs)"
    unfolding number_text_def
    using assms all by (intro exI [of _ "c # cs"] exI [of _ "[]"]) simp
  ultimately show ?thesis by simp
next
  case (Cons e r)
  have split: "cs = takeWhile is_digit cs @ e # r"
    using takeWhile_dropWhile_id [of is_digit cs] Cons by simp
  have d1: "list_all is_digit (c # takeWhile is_digit cs)"
    using assms by (auto simp: list_all_iff dest: set_takeWhileD)
  show ?thesis
  proof (cases "e = CHR ''.''")
    case True
    have a: "after_number cs = dropWhile is_digit r"
      unfolding after_number_def Let_def Cons using True by simp
    have "cs = (takeWhile is_digit cs @ ''.'' @ takeWhile is_digit r) @ dropWhile is_digit r"
      using split True by simp
    moreover have "number_text (c # takeWhile is_digit cs @ ''.'' @ takeWhile is_digit r)"
      unfolding number_text_def
      using d1
      by (intro exI [of _ "c # takeWhile is_digit cs"] exI [of _ "takeWhile is_digit r"])
         (auto simp: list_all_iff dest: set_takeWhileD)
    ultimately show ?thesis
      using a by metis
  next
    case False
    have a: "after_number cs = e # r"
      unfolding after_number_def Let_def Cons using False by simp
    have "number_text (c # takeWhile is_digit cs)"
      unfolding number_text_def
      using d1 by (intro exI [of _ "c # takeWhile is_digit cs"] exI [of _ "[]"]) simp
    with split a show ?thesis by metis
  qed
qed

lemma rating_sound:
  assumes "match_items rating_re u = Some (g, r)"
  shows "\<exists>t ws. u = t @ ws @ ''star'' @ r \<and> g = ws @ ''star'' @ r
           \<and> number_text t \<and> list_all is_space ws"
proof (cases u)
  case Nil
  with assms show ?thesis by (simp add: rating_closed)
next
  case (Cons c cs)
  with assms have c: "is_digit c"
    and m: "match_items (GroupEnd # Cls Star is_space # lit ''star'') (after_number cs)
              = Some (g, r)"
    by (simp_all add: rating_closed del: match_items.simps split: if_splits)
  from m have g: "g = after_number cs" and v: "dropWhile is_space g = ''star'' @ r"
    by (simp_all only: k3_iff)
  obtain x where x: "cs = x @ after_number cs" "number_text (c # x)"
    using after_number_split [OF c] by blast
  have "g = takeWhile is_space g @ ''star'' @ r"
    using takeWhile_dropWhile_id [of is_space g] v by simp
  moreover have "u = (c # x) @ g"
    using Cons x(1) g by simp
  moreover have "list_all is_space (takeWhile is_space g)"
    by (auto simp: list_all_iff dest: set_takeWhileD)
  ultimately show ?thesis
    using x(2) by metis
qed

lemma after_number_digits:
  assumes "list_all is_digit ds" and "rest \<noteq> []" and "\<not> is_digit (hd rest)"
    and "hd rest \<noteq> CHR ''.''"
  shows "after_number (ds @ rest) = rest"
proof -
  have "dropWhile is_digit (ds @ rest) = rest"
    using assms(1,2,3) by (simp add: list_all_iff dropWhile_eq_self_iff)
  then show ?thesis
    using assms(2,4) unfolding after_number_def Let_def by (cases rest) simp_all
qed

lemma after_number_point:
  assumes "list_all is_digit ds" and "list_all is_digit d2" and "rest \<noteq> []"
    and "\<not> is_digit (hd rest)"
  shows "after_number (ds @ ''.'' @ d2 @ rest) = rest"
proof -
  have "dropWhile is_digit (ds @ ''.'' @ d2 @ rest) = ''.'' @ d2 @ rest"
    using assms(1) by (simp add: list_all_iff not_digit_dot)
  moreover have "dropWhile is_digit (d2 @ rest) = rest"
    using assms(2,3,4) by (simp add: list_all_iff dropWhile_eq_self_iff)
  ultimately show ?thesis
    unfolding after_number_def Let_def by simp
qed

lemma rating_complete:
  assumes "number_text t" and "list_all is_space ws"
  shows "match_items rating_re (t @ ws @ ''star'' @ post) = Some (ws @ ''star'' @ post, post)"
proof -
  let ?rest = "ws @ ''star'' @ post"
  have ne: "?rest \<noteq> []" by simp
  have hd: "is_space (hd ?rest) \<or> hd ?rest = CHR ''s''"
    using assms(2) by (cases ws) simp_all
  have nd: "\<not> is_digit (hd ?rest)"
    using hd digit_not_space not_digit_s by auto
  have np: "hd ?rest \<noteq> CHR ''.''"
    using hd not_space_dot by auto
  have v: "dropWhile is_space ?rest = ''star'' @ post"
    using assms(2) by (simp add: list_all_iff not_space_s)
  have k: "match_items (GroupEnd # Cls Star is_space # lit ''star'') ?rest = Some (?rest, post)"
    using v by (simp only: k3_iff)
  from assms(1) obtain d1 d2 where d: "d1 \<noteq> []" "list_all is_digit d1" "list_all is_digit d2"
    "t = d1 @ d2 \<or> t = d1 @ ''.'' @ d2"
    unfolding number_text_def by blast
  obtain c ds where c: "d1 = c # ds" "is_digit c" "list_all is_digit ds"
    using d(1,2) by (cases d1) auto
  from d(4) show ?thesis
  proof
    assume t: "t = d1 @ d2"
    have "after_number ((ds @ d2) @ ?rest) = ?rest"
      using c(3) d(3) ne nd np by (intro after_number_digits) simp_all
    then show ?thesis
      using k c(2) unfolding t c(1) by (simp add: rating_closed del: match_items.simps)
  next
    assume t: "t = d1 @ ''.'' @ d2"
    have "after_number (ds @ ''.'' @ d2 @ ?rest) = ?rest"
      using c(3) d(3) ne nd by (intro after_number_point) simp_all
    then show ?thesis
      using k c(2) unfolding t c(1) by (simp add: rating_closed del: match_items.simps)
  qed
qed

lemma regex_match1_None:
  "regex_match1 is s = None \<longleftrightarrow> (\<forall>pre u. s = pre @ u \<longrightarrow> match_items is u = None)"
proof (induction s)
  case Nil
  then show ?case by (auto split: option.splits)
next
  case (Cons c cs)
  show ?case
  proof (cases "match_items is (c # cs)")
    case None
    then have "regex_match1 is (c # cs) = regex_match1 is cs" by simp
    moreover have "(\<forall>pre u. c # cs = pre @ u \<longrightarrow> match_items is u = None)
        \<longleftrightarrow> (\<forall>pre u. cs = pre @ u \<longrightarrow> match_items is u = None)"
    proof
      assume h: "\<forall>pre u. c # cs = pre @ u \<longrightarrow> match_items is u = None"
      show "\<forall>pre u. cs = pre @ u \<longrightarrow> match_items is u = None"
      proof (intro allI impI)
        fix pre u assume "cs = pre @ u"
        then have "c # cs = (c # pre) @ u" by simp
        with h show "match_items is u = None" by blast
      qed
    next
      assume h: "\<forall>pre u. cs = pre @ u \<longrightarrow> match_items is u = None"
      show "\<forall>pre u. c # cs = pre @ u \<longrightarrow> match_items is u = None"
      proof (intro allI impI)
        fix pre u assume e: "c # cs = pre @ u"
        show "match_items is u = None"
        proof (cases pre)
          case Nil
          with e None show ?thesis by simp
        next
          case (Cons a pre')
          with e have "cs = pre' @ u" by simp
          with h show ?thesis by blast
        qed
      qed
    qed
    ultimately show ?thesis using Cons.IH by simp
  next
    case (Some m)
    then have "regex_match1 is (c # cs) \<noteq> None"
      by (cases m) simp
    moreover have "c # cs = [] @ (c # cs)" by simp
    ultimately show ?thesis using Some by (metis option.distinct(1))
  qed
qed

lemma regex_match1_first:
  assumes "match_items is u = Some (g, r)"
    and "\<forall>pre' u'. pre @ u = pre' @ u' \<and> length pre' < length pre \<longrightarrow> match_items is u' = None"
  shows "regex_match1 is (pre @ u) = Some (take (length u - length g) u)"
  using assms(2)
proof (induction pre)
  case Nil
  show ?case using assms(1) by (cases u) simp_all
next
  case (Cons a pre)
  have "(a # pre) @ u = [] @ (a # pre @ u) \<and> length ([]::string) < length (a # pre)"
    by simp
  with Cons.prems have n: "match_items is (a # pre @ u) = None"
    by blast
  have "\<forall>pre' u'. pre @ u = pre' @ u' \<and> length pre' < length pre \<longrightarrow> match_items is u' = None"
  proof (intro allI impI)
    fix pre' u' assume h: "pre @ u = pre' @ u' \<and> length pre' < length pre"
    then have "(a # pre) @ u = (a # pre') @ u' \<and> length (a # pre') < length (a # pre)"
      by simp
    with Cons.prems show "match_items is u' = None" by blast
  qed
  then have "regex_match1 is (pre @ u) = Some (take (length u - length g) u)"
    by (rule Cons.IH)
  with n show ?case by simp
qed


lemma scale_up_numeral:
  "scale_up (numeral k) x = (if 2 ^ 53 \<le> x then Suc (scale_up (pred_numeral k) (x / 2)) else 0)"
  by (simp add: numeral_eq_Suc)

lemma scale_down_numeral:
  "scale_down (numeral k) x = (if x < 2 ^ 52 then Suc (scale_down (pred_numeral k) (2 * x)) else 0)"
  by (simp add: numeral_eq_Suc)

lemma floor_numeral_div:
  "\<lfloor>numeral a / numeral b :: rat\<rfloor> = numeral a div numeral b"
  using floor_divide_of_int_eq [of "numeral a" "numeral b", where ?'a = rat] by simp

lemma round_half_even_of_int: "round_half_even (of_int z) = z"
  by (simp add: round_half_even_def)

lemma to_double_overflow:
  assumes "2 ^ 1024 \<le> x"
  shows "to_double x = Infinity"
  using assms by (simp add: to_double_def)

lemma to_double_of_nat:
  assumes "n < 2 ^ 53"
  shows "to_double (of_nat n) = Num (of_nat n)"
proof -
  let ?x = "of_nat n :: rat"
  have small: "?x < 2 ^ 53"
    using assms by (metis of_nat_less_iff of_nat_numeral of_nat_power)
  have "(2::rat) ^ 53 \<le> 2 ^ 1024"
    by (rule power_increasing) simp_all
  with small have no: "\<not> 2 ^ 1024 \<le> ?x"
    by linarith
  have u: "scale_up 971 ?x = 0"
    using small by (simp add: scale_up_numeral)
  define d where "d = scale_down 1074 ?x"
  have "?x * 2 ^ d / 2 ^ 0 = of_int (int n * 2 ^ d)"
    by simp
  then have m: "round_half_even (?x * 2 ^ d / 2 ^ 0) = int n * 2 ^ d"
    by (simp only: round_half_even_of_int)
  have v: "of_int (int n * 2 ^ d) * 2 ^ 0 / 2 ^ d = ?x"
    by simp
  show ?thesis
    unfolding to_double_def Let_def u d_def [symmetric] m v using no by simp
qed

lemma to_double_examples:
  "to_double (9 / 2) = Num (9 / 2)"
  "to_double 9007199254740993 = Num 9007199254740992"
  "to_double (1 / 10) = Num (3602879701896397 / 36028797018963968)"
  by (simp_all add: to_double_def scale_up_numeral scale_down_numeral round_half_even_def
      Let_def floor_numeral_div)

lemma parseFloat_digits:
  assumes "list_all is_digit d" and "d \<noteq> []"
  shows "parseFloat d = to_double (of_nat (digits_value d))"
proof -
  have tw: "takeWhile is_digit d = d" and dw: "dropWhile is_digit d = []"
    using assms(1) by (simp_all add: list_all_iff)
  show ?thesis
    unfolding parseFloat_def Let_def tw dw using assms(2) by (simp add: digits_value_def)
qed

lemma parseFloat_point:
  assumes "list_all is_digit d1" and "d1 \<noteq> []" and "list_all is_digit d2"
  shows "parseFloat (d1 @ ''.'' @ d2)
           = to_double (of_nat (digits_value d1) + of_nat (digits_value d2) / 10 ^ length d2)"
proof -
  have tw: "takeWhile is_digit (d1 @ ''.'' @ d2) = d1"
    using assms(1) by (simp add: list_all_iff not_digit_dot)
  have dw: "dropWhile is_digit (d1 @ ''.'' @ d2) = ''.'' @ d2"
    using assms(1) by (simp add: list_all_iff not_digit_dot)
  have tw2: "takeWhile is_digit d2 = d2"
    using assms(3) by (simp add: list_all_iff)
  show ?thesis
    unfolding parseFloat_def Let_def tw dw using assms(2) by (simp add: tw2)
qed

lemma star_match_matches:
  assumes "star_match pre t s"
  shows "\<exists>u g r. s = pre @ u \<and> match_items rating_re u = Some (g, r)
           \<and> take (length u - length g) u = t"
proof -
  from assms obtain ws post where s: "s = pre @ t @ ws @ ''star'' @ post"
    and t: "number_text t" and ws: "list_all is_space ws"
    unfolding star_match_def by blast
  have "match_items rating_re (t @ ws @ ''star'' @ post) = Some (ws @ ''star'' @ post, post)"
    using t ws by (rule rating_complete)
  moreover have "take (length (t @ ws @ ''star'' @ post) - length (ws @ ''star'' @ post))
      (t @ ws @ ''star'' @ post) = t"
    by simp
  ultimately show ?thesis
    using s by blast
qed

lemma matches_star_match:
  assumes "match_items rating_re u = Some (g, r)"
  shows "star_match pre (take (length u - length g) u) (pre @ u)"
proof -
  from rating_sound [OF assms]
  obtain t ws where u: "u = t @ ws @ ''star'' @ r" and g: "g = ws @ ''star'' @ r"
    and t: "number_text t" and ws: "list_all is_space ws"
    by blast
  have "take (length u - length g) u = t"
    unfolding u g by simp
  then show ?thesis
    unfolding star_match_def using u t ws by auto
qed

lemma parseRating_None_iff:
  "parseRating s = None \<longleftrightarrow> \<not> (\<exists>pre t. star_match pre t s)"
proof
  assume "parseRating s = None"
  then have n: "\<forall>pre u. s = pre @ u \<longrightarrow> match_items rating_re u = None"
    by (simp add: parseRating_def regex_match1_None split: option.splits)
  show "\<not> (\<exists>pre t. star_match pre t s)"
  proof
    assume "\<exists>pre t. star_match pre t s"
    then obtain pre t where "star_match pre t s" by blast
    from star_match_matches [OF this] n show False by auto
  qed
next
  assume h: "\<not> (\<exists>pre t. star_match pre t s)"
  have "\<forall>pre u. s = pre @ u \<longrightarrow> match_items rating_re u = None"
  proof (intro allI impI)
    fix pre u assume s: "s = pre @ u"
    show "match_items rating_re u = None"
    proof (cases "match_items rating_re u")
      case None
      then show ?thesis .
    next
      case (Some m)
      obtain g r where "m = (g, r)" by (cases m)
      with Some have "star_match pre (take (length u - length g) u) (pre @ u)"
        by (intro matches_star_match) simp
      with h s show ?thesis by blast
    qed
  qed
  then have "regex_match1 rating_re s = None"
    by (simp only: regex_match1_None)
  then show "parseRating s = None"
    by (simp add: parseRating_def)
qed

lemma parseRating_leftmost:
  assumes "star_match pre t s"
    and "\<forall>pre' t'. star_match pre' t' s \<longrightarrow> length pre \<le> length pre'"
  shows "parseRating s = Some (parseFloat t)"
proof -
  from star_match_matches [OF assms(1)]
  obtain u g r where s: "s = pre @ u" and m: "match_items rating_re u = Some (g, r)"
    and t: "take (length u - length g) u = t"
    by blast
  have "\<forall>pre' u'. pre @ u = pre' @ u' \<and> length pre' < length pre
          \<longrightarrow> match_items rating_re u' = None"
  proof (intro allI impI)
    fix pre' u' assume h: "pre @ u = pre' @ u' \<and> length pre' < length pre"
    show "match_items rating_re u' = None"
    proof (cases "match_items rating_re u'")
      case None
      then show ?thesis .
    next
      case (Some m')
      obtain g' r' where "m' = (g', r')" by (cases m')
      with Some have "star_match pre' (take (length u' - length g') u') (pre' @ u')"
        by (intro matches_star_match) simp
      with h s assms(2) have "length pre \<le> length pre'" by metis
      with h show ?thesis by simp
    qed
  qed
  with m have "regex_match1 rating_re (pre @ u) = Some (take (length u - length g) u)"
    by (rule regex_match1_first)
  then show ?thesis
    using s t by (simp add: parseRating_def)
qed

lemma parseRating_examples:
  "parseRating ''4.5 stars'' = Some (Num (9 / 2))"
  "parseRating ''Rated 4.5 out of 5'' = None"
  "parseRating ''4.5 Stars'' = None"
  "parseRating ''9007199254740993 stars'' = Some (Num 9007199254740992)"
  by (simp_all add: parseRating_def rating_re_def lit_def is_digit_def is_space_def
      parseFloat_def digits_value_def digit_value_def to_double_examples)

text \<open>
  Claim C8, as the code has it. The pattern has no \<open>i\<close> flag: \<open>parseRating\<close> takes the
  leftmost place where a decimal number, optional white space and the lower-case word
  \<open>star\<close> follow one another, and returns that number as \<open>parseFloat\<close> reads it; it
  returns \<open>undefined\<close> exactly when the text has no such place. \<open>parseFloat\<close> gives the
  double nearest to the decimal value of the number: the value itself for an integer below
  \<open>2 ^ 53\<close>, \<open>Infinity\<close> from \<open>2 ^ 1024\<close> on. So \<open>4.5 stars\<close> gives 4.5,
  \<open>Rated 4.5 out of 5\<close> gives \<open>undefined\<close>, and \<open>9007199254740993 stars\<close> gives
  9007199254740992.
\<close>

theorem parseRating_first_match:
  "(parseRating s = None \<longleftrightarrow> \<not> (\<exists>pre t. star_match pre t s))
   \<and> (star_match pre t s \<and> (\<forall>pre' t'. star_match pre' t' s \<longrightarrow> length pre \<le> length pre')
        \<longrightarrow> parseRating s = Some (parseFloat t))
   \<and> (list_all is_digit d1 \<and> d1 \<noteq> [] \<and> list_all is_digit d2
        \<longrightarrow> parseFloat (d1 @ d2) = to_double (of_nat (digits_value (d1 @ d2)))
          \<and> parseFloat (d1 @ ''.'' @ d2)
              = to_double (of_nat (digits_value d1) + of_nat (digits_value d2) / 10 ^ length d2)
          \<and> (digits_value (d1 @ d2) < 2 ^ 53
               \<longrightarrow> parseFloat (d1 @ d2) = Num (of_nat (digits_value (d1 @ d2))))
          \<and> (2 ^ 1024 \<le> digits_value (d1 @ d2) \<longrightarrow> parseFloat (d1 @ d2) = Infinity))
   \<and> parseRating ''4.5 stars'' = Some (Num (9 / 2))
   \<and> parseRating ''Rated 4.5 out of 5'' = None
   \<and> parseRating ''9007199254740993 stars'' = Some (Num 9007199254740992)"
proof (intro conjI impI)
  show "parseRating s = None \<longleftrightarrow> \<not> (\<exists>pre t. star_match pre t s)"
    by (rule parseRating_None_iff)
  show "parseRating ''4.5 stars'' = Some (Num (9 / 2))"
    by (rule parseRating_examples)
  show "parseRating ''Rated 4.5 out of 5'' = None"
    by (rule parseRating_examples)
  show "parseRating ''9007199254740993 stars'' = Some (Num 9007199254740992)"
    by (rule parseRating_examples)
next
  assume "star_match pre t s \<and> (\<forall>pre' t'. star_match pre' t' s \<longrightarrow> length pre \<le> length pre')"
  then show "parseRating s = Some (parseFloat t)"
    using parseRating_leftmost by blast
next
  assume a: "list_all is_digit d1 \<and> d1 \<noteq> [] \<and> list_all is_digit d2"
  then show p: "parseFloat (d1 @ d2) = to_double (of_nat (digits_value (d1 @ d2)))"
    by (intro parseFloat_digits) simp_all
  from a show "parseFloat (d1 @ ''.'' @ d2)
      = to_double (of_nat (digits_value d1) + of_nat (digits_value d2) / 10 ^ length d2)"
    by (intro parseFloat_point) simp_all
  show "parseFloat (d1 @ d2) = Num (of_nat (digits_value (d1 @ d2)))"
    if "digits_value (d1 @ d2) < 2 ^ 53"
    using that p by (simp only: to_double_of_nat)
  show "parseFloat (d1 @ d2) = Infinity" if "2 ^ 1024 \<le> digits_value (d1 @ d2)"
  proof -
    have "(2::rat) ^ 1024 \<le> of_nat (digits_value (d1 @ d2))"
      using that by (metis of_nat_le_iff of_nat_numeral of_nat_power)
    then show ?thesis
      using p by (simp only: to_double_overflow)
  qed
qed

theorem parseRating_first_match_witness:
  "star_match ''Rated '' ''4.5'' ''Rated 4.5 stars''
   \<and> \<not> (\<exists>pre' t'. star_match pre' t' ''Rated 4.5 stars'' \<and> length pre' < length ''Rated '')
   \<and> list_all is_digit ''4'' \<and> list_all is_digit ''5''
   \<and> parseRating ''Rated 4.5 stars'' = Some (Num (9 / 2))
   \<and> \<not> (\<exists>pre t. star_match pre t ''Rated 4.5 out of 5'')"
proof -
  have n: "number_text ''4.5''"
    unfolding number_text_def
    by (intro exI [of _ "''4''"] exI [of _ "''5''"]) (simp add: is_digit_def)
  have m: "star_match ''Rated '' ''4.5'' ''Rated 4.5 stars''"
    unfolding star_match_def
    using n by (intro exI [of _ "'' ''"] exI [of _ "''s''"]) (simp add: is_space_def)
  have d: "list_all is_digit ''4''" "list_all is_digit ''5''"
    by (simp_all add: is_digit_def)
  have least: "\<forall>pre' t'. star_match pre' t' ''Rated 4.5 stars'' \<longrightarrow> length ''Rated '' \<le> length pre'"
  proof (intro allI impI)
    fix pre' t' assume h: "star_match pre' t' ''Rated 4.5 stars''"
    then obtain ws post d1 d2 where e: "''Rated 4.5 stars'' = pre' @ t' @ ws @ ''star'' @ post"
      and t': "d1 \<noteq> []" "list_all is_digit d1" "t' = d1 @ d2 \<or> t' = d1 @ ''.'' @ d2"
      unfolding star_match_def number_text_def by blast
    obtain c ds where c: "d1 = c # ds" "is_digit c"
      using t'(1,2) by (cases d1) auto
    from e t'(3) c(1) obtain rest where r: "''Rated 4.5 stars'' = pre' @ c # rest"
      by auto
    show "length ''Rated '' \<le> length pre'"
    proof (rule ccontr)
      assume "\<not> length ''Rated '' \<le> length pre'"
      then have "length pre' < 6" by simp
      then have "c = ''Rated 4.5 stars'' ! length pre' \<and> length pre' < 6"
        using r by (metis nth_append_length)
      then have "c \<in> set ''Rated ''"
        by (auto simp: less_Suc_eq numeral_eq_Suc)
      with c(2) show False
        by (auto simp: is_digit_def)
    qed
  qed
  from parseRating_first_match [of "''Rated 4.5 stars''" "''Rated ''" "''4.5''" "''4''" "''5''"]
    m least
  have 1: "parseRating ''Rated 4.5 stars'' = Some (parseFloat ''4.5'')"
    by blast
  have 2: "parseFloat ''4.5'' = Num (9 / 2)"
    by (simp add: parseFloat_def is_digit_def digits_value_def digit_value_def
        to_double_examples)
  from parseRating_first_match [of "''Rated 4.5 out of 5''" "[]" "[]" "[]" "[]"]
  have 3: "\<not> (\<exists>pre t. star_match pre t ''Rated 4.5 out of 5'')"
    by (elim conjE) simp
  have 4: "\<not> (\<exists>pre' t'. star_match pre' t' ''Rated 4.5 stars''
               \<and> length pre' < length ''Rated '')"
    using least by (meson not_less)
  from m d 1 2 3 4 show ?thesis
    by simp
qed

text \<open>
  Claim C8 as stated fails: the match is case-sensitive, so the label \<open>4.5 Stars\<close>, which
  a case-insensitive match would read as 4.5, gives \<open>undefined\<close>.
\<close>

theorem parseRating_case_counterexample:
  "parseRating ''4.5 Stars'' = None \<and> parseRating ''4.5 Stars'' \<noteq> Some (Num (9 / 2))"
  by (simp add: parseRating_examples)

end
